theory Spec2Isabelle
  imports
    Complex_Main
    "HOL-Library.Char_ord"
    "HOL-Library.List_Lexorder"
    "HOL-Library.Option_ord"
    "HOL-Library.Product_Lexorder"
begin

section \<open>GymBuddy server: the store\<close>

text \<open>
  The server keeps all of its state in one SQLite database of seven tables. A table is
  modelled as the list of its rows in rowid order: an INSERT appends a row, a DELETE
  filters rows out, an UPDATE maps over the rows. A nullable column is an \<open>option\<close>
  (\<open>None\<close> is SQL NULL). TEXT values are byte strings compared bytewise (SQLite's BINARY
  collation), INTEGER timestamps and positions are \<open>int\<close>, the REAL column \<open>peso\<close> is
  \<open>real\<close> (every finite double is a real number and the order is the same).

  Request bodies are typed as the schema and the client send them: a field that is
  absent, \<open>undefined\<close> or \<open>null\<close> is \<open>None\<close>.
\<close>

record exercise =
  ex_id :: string
  ex_name :: string
  ex_image :: "string option"
  ex_bodyPart :: "string option"
  ex_primaryMuscles :: "string option"
  ex_secondaryMuscles :: "string option"
  ex_equipment :: "string option"
  ex_isCustom :: int

record routine =
  r_id :: string
  r_name :: string
  r_createdAt :: int
  r_updatedAt :: int

record routine_exercise =
  re_id :: string
  re_routine_id :: string
  re_exercise_id :: string
  re_order_index :: int

record routine_set =
  rs_id :: string
  rs_routine_exercise_id :: string
  rs_reps :: "int option"
  rs_peso :: "real option"

record workout =
  w_id :: string
  w_routine_id :: "string option"
  w_startedAt :: "int option"
  w_finishedAt :: "int option"
  w_durationSec :: "int option"

record workout_item =
  wi_id :: string
  wi_workout_id :: string
  wi_exercise_id :: "string option"
  wi_name :: "string option"
  wi_bodyPart :: "string option"
  wi_image :: "string option"
  wi_order_index :: int

record workout_set =
  ws_id :: string
  ws_workout_item_id :: string
  ws_reps :: "int option"
  ws_peso :: "real option"
  ws_done :: int

record db =
  exercises :: "exercise list"
  routines :: "routine list"
  routine_exercises :: "routine_exercise list"
  routine_sets :: "routine_set list"
  workouts :: "workout list"
  workout_items :: "workout_item list"
  workout_sets :: "workout_set list"

definition empty_db :: db where
  "empty_db = \<lparr>exercises = [], routines = [], routine_exercises = [], routine_sets = [],
     workouts = [], workout_items = [], workout_sets = []\<rparr>"

subsection \<open>The SQL statements the handlers prepare\<close>

text \<open>
  One constructor per prepared statement of the server, with the bound parameters in the
  order of the \<open>run(...)\<close> call.
\<close>

datatype stmt =
    InsertExercise exercise
  | InsertRoutine routine
  | UpdateRoutineName string int string
  | UpdateRoutineUpdatedAt int string
  | UpdateRoutineSet "int option" "real option" string
  | DeleteRoutineSetsOfRex string
  | DeleteRoutineExercise string string
  | InsertRoutineExercise routine_exercise
  | InsertRoutineSet routine_set
  | DeleteRoutineSet string string
  | InsertWorkout workout
  | InsertWorkoutItem workout_item
  | InsertWorkoutSet workout_set

text \<open>
  Modelled from the spec: the constraint checking of the storage engine, which is not
  part of the sources. A PRIMARY KEY that is already stored makes an INSERT throw;
  the declared foreign keys are not enforced ("referential integrity is not
  database-enforced").

  \<open>exec\<close> runs one statement; \<open>None\<close> is a thrown constraint error.
\<close>

fun exec :: "stmt \<Rightarrow> db \<Rightarrow> db option" where
  "exec (InsertExercise e) d =
     (if ex_id e \<in> set (map ex_id (exercises d)) then None
      else Some (d\<lparr>exercises := exercises d @ [e]\<rparr>))"
| "exec (InsertRoutine r) d =
     (if r_id r \<in> set (map r_id (routines d)) then None
      else Some (d\<lparr>routines := routines d @ [r]\<rparr>))"
| "exec (UpdateRoutineName n t i) d =
     Some (d\<lparr>routines :=
       map (\<lambda>r. if r_id r = i then r\<lparr>r_name := n, r_updatedAt := t\<rparr> else r) (routines d)\<rparr>)"
| "exec (UpdateRoutineUpdatedAt t i) d =
     Some (d\<lparr>routines :=
       map (\<lambda>r. if r_id r = i then r\<lparr>r_updatedAt := t\<rparr> else r) (routines d)\<rparr>)"
| "exec (UpdateRoutineSet reps peso i) d =
     Some (d\<lparr>routine_sets :=
       map (\<lambda>s. if rs_id s = i then s\<lparr>rs_reps := reps, rs_peso := peso\<rparr> else s)
         (routine_sets d)\<rparr>)"
| "exec (DeleteRoutineSetsOfRex x) d =
     Some (d\<lparr>routine_sets :=
       filter (\<lambda>s. rs_routine_exercise_id s \<noteq> x) (routine_sets d)\<rparr>)"
| "exec (DeleteRoutineExercise x i) d =
     Some (d\<lparr>routine_exercises :=
       filter (\<lambda>l. \<not> (re_id l = x \<and> re_routine_id l = i)) (routine_exercises d)\<rparr>)"
| "exec (InsertRoutineExercise l) d =
     (if re_id l \<in> set (map re_id (routine_exercises d)) then None
      else Some (d\<lparr>routine_exercises := routine_exercises d @ [l]\<rparr>))"
| "exec (InsertRoutineSet s) d =
     (if rs_id s \<in> set (map rs_id (routine_sets d)) then None
      else Some (d\<lparr>routine_sets := routine_sets d @ [s]\<rparr>))"
| "exec (DeleteRoutineSet s x) d =
     Some (d\<lparr>routine_sets :=
       filter (\<lambda>r. \<not> (rs_id r = s \<and> rs_routine_exercise_id r = x)) (routine_sets d)\<rparr>)"
| "exec (InsertWorkout w) d =
     (if w_id w \<in> set (map w_id (workouts d)) then None
      else Some (d\<lparr>workouts := workouts d @ [w]\<rparr>))"
| "exec (InsertWorkoutItem i) d =
     (if wi_id i \<in> set (map wi_id (workout_items d)) then None
      else Some (d\<lparr>workout_items := workout_items d @ [i]\<rparr>))"
| "exec (InsertWorkoutSet s) d =
     (if ws_id s \<in> set (map ws_id (workout_sets d)) then None
      else Some (d\<lparr>workout_sets := workout_sets d @ [s]\<rparr>))"

text \<open>
  \<open>db.transaction(f)()\<close>: the statements run in order; when one throws, everything is
  rolled back and the error propagates (\<open>None\<close>: the caller keeps the database it had).
\<close>

fun transaction :: "stmt list \<Rightarrow> db \<Rightarrow> db option" where
  "transaction [] d = Some d"
| "transaction (s # ss) d = (case exec s d of None \<Rightarrow> None | Some d' \<Rightarrow> transaction ss d')"

datatype error = ValidationError string | NotFound string | StorageError

text \<open>JavaScript truthiness of a string-valued field: absent and \<open>""\<close> are falsy.\<close>

fun truthy :: "string option \<Rightarrow> bool" where
  "truthy None = False"
| "truthy (Some s) = (s \<noteq> [])"

text \<open>\<open>x || ""\<close> on a string-valued field.\<close>

fun or_empty :: "string option \<Rightarrow> string" where
  "or_empty None = []"
| "or_empty (Some s) = s"

section \<open>Personal records: GET /api/marks\<close>

text \<open>The rows of the CTE \<open>ranked\<close> before numbering: one per workout set joined to its item.\<close>

record ranked_row =
  rk_exercise_id :: "string option"
  rk_name :: "string option"
  rk_bodyPart :: "string option"
  rk_image :: "string option"
  rk_peso :: "real option"
  rk_reps :: "int option"

record mark =
  mk_exercise_id :: "string option"
  mk_name :: "string option"
  mk_bodyPart :: "string option"
  mk_image :: "string option"
  pr_weight :: "real option"
  reps_at_pr :: "int option"

text \<open>\<open>FROM workout_sets ws JOIN workout_items wi ON wi.id = ws.workout_item_id\<close>\<close>

definition joined :: "db \<Rightarrow> ranked_row list" where
  "joined d =
     concat (map (\<lambda>ws. concat (map (\<lambda>wi.
        if wi_id wi = ws_workout_item_id ws
        then [\<lparr>rk_exercise_id = wi_exercise_id wi, rk_name = wi_name wi,
               rk_bodyPart = wi_bodyPart wi, rk_image = wi_image wi,
               rk_peso = ws_peso ws, rk_reps = ws_reps ws\<rparr>]
        else []) (workout_items d))) (workout_sets d))"

text \<open>
  \<open>ORDER BY (ws.peso IS NULL) ASC, ws.peso DESC, (ws.reps IS NULL) ASC, ws.reps DESC\<close>
  as an ascending lexicographic key: \<open>False < True\<close> puts the non-null rows first, and a
  descending term is the ascending order of the negated value. Among rows that agree on
  \<open>IS NULL\<close> the NULL values compare equal, so NULL stands as 0 in the value position.
\<close>

definition rank_key :: "ranked_row \<Rightarrow> bool \<times> real \<times> bool \<times> int" where
  "rank_key r =
     (rk_peso r = None, (case rk_peso r of None \<Rightarrow> 0 | Some w \<Rightarrow> - w),
      rk_reps r = None, (case rk_reps r of None \<Rightarrow> 0 | Some n \<Rightarrow> - n))"

text \<open>
  \<open>ROW_NUMBER() OVER (PARTITION BY wi.exercise_id ORDER BY ...)\<close>: every partition is
  sorted and numbered from 1. SQLite leaves the order of rows with equal keys open; the
  model keeps their scan order (a stable sort).
\<close>

definition ranked :: "db \<Rightarrow> (nat \<times> ranked_row) list" where
  "ranked d =
     concat (map (\<lambda>e. enumerate 1 (sort_key rank_key
        (filter (\<lambda>r. rk_exercise_id r = e) (joined d))))
       (remdups (map rk_exercise_id (joined d))))"

text \<open>\<open>COALESCE(x, y)\<close>: the first argument that is not NULL.\<close>

fun coalesce :: "'a option \<Rightarrow> 'a option \<Rightarrow> 'a option" where
  "coalesce None y = y"
| "coalesce (Some x) y = Some x"

definition winners :: "db \<Rightarrow> ranked_row list" where
  "winners d = map snd (filter (\<lambda>(rn, r). rn = 1) (ranked d))"

definition select_mark :: "ranked_row \<Rightarrow> mark" where
  "select_mark r =
     \<lparr>mk_exercise_id = rk_exercise_id r, mk_name = rk_name r, mk_bodyPart = rk_bodyPart r,
      mk_image = rk_image r, pr_weight = rk_peso r, reps_at_pr = coalesce (rk_reps r) (Some 0)\<rparr>"

text \<open>\<open>SELECT ... FROM ranked WHERE rn=1 ORDER BY name ASC\<close> (NULL names sort first).\<close>

definition get_marks :: "db \<Rightarrow> mark list" where
  "get_marks d = sort_key mk_name (map select_mark (winners d))"


text \<open>
  The ranking in the words of the specification: weight descending with nulls last, then
  reps descending with nulls last as tie-break. \<open>sorts_before a b\<close> says that \<open>a\<close> comes
  strictly before \<open>b\<close> in a descending order that puts NULL last.
\<close>

fun sorts_before :: "'a::linorder option \<Rightarrow> 'a option \<Rightarrow> bool" where
  "sorts_before (Some x) (Some y) = (y < x)"
| "sorts_before (Some x) None = True"
| "sorts_before None y = False"

definition ranks_at_or_above :: "ranked_row \<Rightarrow> ranked_row \<Rightarrow> bool" where
  "ranks_at_or_above a b =
     (sorts_before (rk_peso a) (rk_peso b) \<or>
      (rk_peso a = rk_peso b \<and>
        (sorts_before (rk_reps a) (rk_reps b) \<or> rk_reps a = rk_reps b)))"

text \<open>A set of an exercise is top-ranked when it ranks at or above every set of that exercise.\<close>

definition top_ranked :: "db \<Rightarrow> ranked_row \<Rightarrow> bool" where
  "top_ranked d t =
     (t \<in> set (joined d) \<and>
      (\<forall>s\<in>set (joined d). rk_exercise_id s = rk_exercise_id t \<longrightarrow> ranks_at_or_above t s))"

text \<open>The first row of an exercise's sorted partition (the row numbered 1).\<close>

definition winner_of :: "db \<Rightarrow> string option \<Rightarrow> ranked_row" where
  "winner_of d e = hd (sort_key rank_key (filter (\<lambda>r. rk_exercise_id r = e) (joined d)))"

section \<open>Exercise catalog: POST /api/exercises\<close>

record exercise_fields =
  xf_name :: "string option"
  xf_image :: "string option"
  xf_bodyPart :: "string option"
  xf_primaryMuscles :: "string option"
  xf_secondaryMuscles :: "string option"
  xf_equipment :: "string option"

text \<open>
  \<open>String.prototype.trim\<close>. Strings are byte strings in UTF-8, so the white space and
  line terminator code points that \<open>trim\<close> strips are byte sequences: U+0009 to U+000D,
  U+0020, U+00A0, U+1680, U+2000 to U+200A, U+2028, U+2029, U+202F, U+205F, U+3000 and
  U+FEFF. \<open>strip_start\<close> removes such sequences from the front as long as there is one;
  the end is stripped the same way on the reversed string.
\<close>

definition white_space :: "string list" where
  "white_space =
     [[CHR 0x09], [CHR 0x0A], [CHR 0x0B], [CHR 0x0C], [CHR 0x0D], [CHR 0x20],
      [CHR 0xC2, CHR 0xA0],
      [CHR 0xE1, CHR 0x9A, CHR 0x80],
      [CHR 0xE2, CHR 0x80, CHR 0x80], [CHR 0xE2, CHR 0x80, CHR 0x81],
      [CHR 0xE2, CHR 0x80, CHR 0x82], [CHR 0xE2, CHR 0x80, CHR 0x83],
      [CHR 0xE2, CHR 0x80, CHR 0x84], [CHR 0xE2, CHR 0x80, CHR 0x85],
      [CHR 0xE2, CHR 0x80, CHR 0x86], [CHR 0xE2, CHR 0x80, CHR 0x87],
      [CHR 0xE2, CHR 0x80, CHR 0x88], [CHR 0xE2, CHR 0x80, CHR 0x89],
      [CHR 0xE2, CHR 0x80, CHR 0x8A],
      [CHR 0xE2, CHR 0x80, CHR 0xA8], [CHR 0xE2, CHR 0x80, CHR 0xA9],
      [CHR 0xE2, CHR 0x80, CHR 0xAF],
      [CHR 0xE2, CHR 0x81, CHR 0x9F],
      [CHR 0xE3, CHR 0x80, CHR 0x80],
      [CHR 0xEF, CHR 0xBB, CHR 0xBF]]"

definition space_at_start :: "string list \<Rightarrow> string \<Rightarrow> nat" where
  "space_at_start ws s =
     (case find (\<lambda>w. take (length w) s = w) ws of None \<Rightarrow> 0 | Some w \<Rightarrow> length w)"

function strip_start :: "string list \<Rightarrow> string \<Rightarrow> string" where
  "strip_start ws s =
     (if space_at_start ws s = 0 \<or> s = [] then s
      else strip_start ws (drop (space_at_start ws s) s))"
  by pat_completeness auto
termination
  by (relation "measure (\<lambda>(ws, s). length s)") auto

declare strip_start.simps [simp del]

definition trimStart :: "string \<Rightarrow> string" where
  "trimStart s = strip_start white_space s"

definition trimEnd :: "string \<Rightarrow> string" where
  "trimEnd s = rev (strip_start (map rev white_space) (rev s))"

definition trim :: "string \<Rightarrow> string" where
  "trim s = trimEnd (trimStart s)"

text \<open>The argument \<open>nano\<close> is the value \<open>nanoid(8)\<close> returns in this request.\<close>

definition post_exercise :: "string \<Rightarrow> exercise_fields \<Rightarrow> db \<Rightarrow> (error + exercise) \<times> db" where
  "post_exercise nano p d =
     (if \<not> truthy (xf_name p) then (Inl (ValidationError ''name required''), d)
      else
        let ex = \<lparr>ex_id = ''cus_'' @ nano, ex_name = trim (or_empty (xf_name p)),
                  ex_image = Some (or_empty (xf_image p)),
                  ex_bodyPart = Some (or_empty (xf_bodyPart p)),
                  ex_primaryMuscles = Some (or_empty (xf_primaryMuscles p)),
                  ex_secondaryMuscles = Some (or_empty (xf_secondaryMuscles p)),
                  ex_equipment = Some (or_empty (xf_equipment p)),
                  ex_isCustom = 1\<rparr>
        in case exec (InsertExercise ex) d of
             None \<Rightarrow> (Inl StorageError, d)
           | Some d' \<Rightarrow> (Inr ex, d'))"

text \<open>
  The check the client makes before it posts the form (\<open>if(!payload.name.trim()) return\<close>
  in app.js): the name is blank after trimming.
\<close>

definition blank_after_trim :: "string option \<Rightarrow> bool" where
  "blank_after_trim n = (trim (or_empty n) = [])"

section \<open>Routines\<close>

record set_view =
  sv_id :: string
  sv_reps :: "int option"
  sv_peso :: "real option"

record exercise_view =
  ev_id :: string
  ev_name :: string
  ev_image :: "string option"
  ev_bodyPart :: "string option"
  ev_primaryMuscles :: "string option"
  ev_secondaryMuscles :: "string option"
  ev_equipment :: "string option"

record routine_exercise_view =
  rv_id :: string
  rv_order_index :: int
  rv_exercise :: exercise_view
  rv_sets :: "set_view list"

record routine_view =
  fv_id :: string
  fv_name :: string
  fv_createdAt :: int
  fv_updatedAt :: int
  fv_exercises :: "routine_exercise_view list"

text \<open>
  \<open>loadRoutineFull(id)\<close>: the routine row, its links joined to the catalog and ordered by
  \<open>order_index\<close> then link id, each with its sets in rowid order; \<open>None\<close> is \<open>null\<close>.
\<close>

definition setsByRex :: "db \<Rightarrow> string \<Rightarrow> set_view list" where
  "setsByRex d x =
     map (\<lambda>s. \<lparr>sv_id = rs_id s, sv_reps = rs_reps s, sv_peso = rs_peso s\<rparr>)
       (filter (\<lambda>s. rs_routine_exercise_id s = x) (routine_sets d))"

definition exs :: "db \<Rightarrow> string \<Rightarrow> (routine_exercise \<times> exercise) list" where
  "exs d i =
     sort_key (\<lambda>(l, e). (re_order_index l, re_id l))
       (concat (map (\<lambda>l. concat (map (\<lambda>e.
          if ex_id e = re_exercise_id l \<and> re_routine_id l = i then [(l, e)] else [])
          (exercises d))) (routine_exercises d)))"

definition loadRoutineFull :: "string \<Rightarrow> db \<Rightarrow> routine_view option" where
  "loadRoutineFull i d =
     (case find (\<lambda>r. r_id r = i) (routines d) of
        None \<Rightarrow> None
      | Some r \<Rightarrow> Some \<lparr>fv_id = r_id r, fv_name = r_name r, fv_createdAt = r_createdAt r,
          fv_updatedAt = r_updatedAt r,
          fv_exercises = map (\<lambda>(l, e).
            \<lparr>rv_id = re_id l, rv_order_index = re_order_index l,
             rv_exercise = \<lparr>ev_id = ex_id e, ev_name = ex_name e, ev_image = ex_image e,
               ev_bodyPart = ex_bodyPart e, ev_primaryMuscles = ex_primaryMuscles e,
               ev_secondaryMuscles = ex_secondaryMuscles e, ev_equipment = ex_equipment e\<rparr>,
             rv_sets = setsByRex d (re_id l)\<rparr>) (exs d i)\<rparr>)"

text \<open>The stored \<open>updatedAt\<close> of a routine, when the routine exists.\<close>

definition updated_at :: "db \<Rightarrow> string \<Rightarrow> int option" where
  "updated_at d i = map_option r_updatedAt (find (\<lambda>r. r_id r = i) (routines d))"

text \<open>
  POST /api/routines. \<open>t\<close> is the value of \<open>now()\<close>; the name is \<open>req.body.name || "Rutina"\<close>.
\<close>

definition post_routine :: "int \<Rightarrow> string \<Rightarrow> string option \<Rightarrow> db \<Rightarrow> (error + routine_view option) \<times> db" where
  "post_routine t nano name d =
     (let i = ''rut_'' @ nano in
      case exec (InsertRoutine \<lparr>r_id = i, r_name = (if truthy name then or_empty name else ''Rutina''),
                    r_createdAt = t, r_updatedAt = t\<rparr>) d of
        None \<Rightarrow> (Inl StorageError, d)
      | Some d' \<Rightarrow> (Inr (loadRoutineFull i d'), d'))"

text \<open>GET /api/routines/:id\<close>

definition get_routine :: "string \<Rightarrow> db \<Rightarrow> error + routine_view" where
  "get_routine i d =
     (case loadRoutineFull i d of None \<Rightarrow> Inl (NotFound ''not found'') | Some out \<Rightarrow> Inr out)"

subsection \<open>PUT /api/routines/:id\<close>

record set_patch =
  sp_id :: "string option"
  sp_reps :: "int option"
  sp_peso :: "real option"

record exercise_patch =
  xp_id :: "string option"
  xp_sets :: "set_patch list option"

record routine_patch =
  rp_name :: "string option"
  rp_exercises :: "exercise_patch list option"

text \<open>\<open>ex.sets.forEach(s => { if(s.id) UPDATE routine_sets SET reps=?, peso=? WHERE id=? })\<close>\<close>

definition set_updates :: "set_patch list \<Rightarrow> stmt list" where
  "set_updates ss =
     concat (map (\<lambda>s. if truthy (sp_id s)
                       then [UpdateRoutineSet (sp_reps s) (sp_peso s) (or_empty (sp_id s))]
                       else []) ss)"

text \<open>The body of the transaction: the set updates of every exercise, then one touch.\<close>

definition update_sets_tx :: "int \<Rightarrow> string \<Rightarrow> exercise_patch list \<Rightarrow> stmt list" where
  "update_sets_tx t i list =
     concat (map (\<lambda>ex. case xp_sets ex of None \<Rightarrow> [] | Some ss \<Rightarrow> set_updates ss) list)
       @ [UpdateRoutineUpdatedAt t i]"

text \<open>
  \<open>t1\<close> is the reading of \<open>now()\<close> in the rename, \<open>t2\<close> the one inside the transaction.
  The rename is committed on its own before the transaction starts.
\<close>

definition put_routine :: "int \<Rightarrow> int \<Rightarrow> string \<Rightarrow> routine_patch \<Rightarrow> db \<Rightarrow> (error + routine_view option) \<times> db" where
  "put_routine t1 t2 i body d =
     (case (if truthy (rp_name body)
            then exec (UpdateRoutineName (or_empty (rp_name body)) t1 i) d else Some d) of
        None \<Rightarrow> (Inl StorageError, d)
      | Some d1 \<Rightarrow>
          (case (case rp_exercises body of
                   None \<Rightarrow> Some d1
                 | Some list \<Rightarrow> transaction (update_sets_tx t2 i list) d1) of
             None \<Rightarrow> (Inl StorageError, d1)
           | Some d2 \<Rightarrow> (Inr (loadRoutineFull i d2), d2)))"

subsection \<open>DELETE /api/routines/:id/exercises/:rexId\<close>

definition remove_exercise_tx :: "int \<Rightarrow> string \<Rightarrow> string \<Rightarrow> stmt list" where
  "remove_exercise_tx t i rexId =
     [DeleteRoutineSetsOfRex rexId, DeleteRoutineExercise rexId i, UpdateRoutineUpdatedAt t i]"

definition delete_routine_exercise :: "int \<Rightarrow> string \<Rightarrow> string \<Rightarrow> db \<Rightarrow> (error + unit) \<times> db" where
  "delete_routine_exercise t i rexId d =
     (case transaction (remove_exercise_tx t i rexId) d of
        None \<Rightarrow> (Inl StorageError, d)
      | Some d' \<Rightarrow> (Inr (), d'))"

subsection \<open>POST /api/routines/:id/exercises\<close>

text \<open>\<open>MAX(x)\<close> over the selected rows: NULL when there is none.\<close>

fun sql_max :: "int list \<Rightarrow> int option" where
  "sql_max [] = None"
| "sql_max (x # xs) = (case sql_max xs of None \<Rightarrow> Some x | Some m \<Rightarrow> Some (max x m))"

text \<open>\<open>SELECT COALESCE(MAX(order_index),0)+1 AS o FROM routine_exercises WHERE routine_id=?\<close>\<close>

definition next_order :: "db \<Rightarrow> string \<Rightarrow> int" where
  "next_order d i =
     (case coalesce (sql_max (map re_order_index
             (filter (\<lambda>l. re_routine_id l = i) (routine_exercises d)))) (Some 0) of
        None \<Rightarrow> 0 | Some m \<Rightarrow> m) + 1"

definition post_routine_exercise ::
    "int \<Rightarrow> string \<Rightarrow> string \<Rightarrow> string option \<Rightarrow> db \<Rightarrow> (error + routine_view option) \<times> db" where
  "post_routine_exercise t nano i exerciseId d =
     (if \<not> truthy exerciseId then (Inl (ValidationError ''exerciseId required''), d)
      else
        let rexId = ''rex_'' @ nano; order = next_order d i
        in case transaction
               [InsertRoutineExercise \<lparr>re_id = rexId, re_routine_id = i,
                   re_exercise_id = or_empty exerciseId, re_order_index = order\<rparr>,
                UpdateRoutineUpdatedAt t i] d of
             None \<Rightarrow> (Inl StorageError, d)
           | Some d' \<Rightarrow> (Inr (loadRoutineFull i d'), d'))"

subsection \<open>Sets of a routine exercise\<close>

text \<open>POST /api/routines/:id/exercises/:rexId/sets: two statements, no transaction.\<close>

definition post_routine_set ::
    "int \<Rightarrow> string \<Rightarrow> string \<Rightarrow> string \<Rightarrow> int option \<Rightarrow> real option \<Rightarrow> db \<Rightarrow> (error + string) \<times> db" where
  "post_routine_set t nano i rexId reps peso d =
     (let setId = ''set_'' @ nano in
      case exec (InsertRoutineSet \<lparr>rs_id = setId, rs_routine_exercise_id = rexId,
                    rs_reps = reps, rs_peso = peso\<rparr>) d of
        None \<Rightarrow> (Inl StorageError, d)
      | Some d1 \<Rightarrow>
          (case exec (UpdateRoutineUpdatedAt t i) d1 of
             None \<Rightarrow> (Inl StorageError, d1)
           | Some d2 \<Rightarrow> (Inr setId, d2)))"

text \<open>DELETE /api/routines/:id/exercises/:rexId/sets/:setId\<close>

definition delete_routine_set ::
    "int \<Rightarrow> string \<Rightarrow> string \<Rightarrow> string \<Rightarrow> db \<Rightarrow> (error + unit) \<times> db" where
  "delete_routine_set t i rexId setId d =
     (case exec (DeleteRoutineSet setId rexId) d of
        None \<Rightarrow> (Inl StorageError, d)
      | Some d1 \<Rightarrow>
          (case exec (UpdateRoutineUpdatedAt t i) d1 of
             None \<Rightarrow> (Inl StorageError, d1)
           | Some d2 \<Rightarrow> (Inr (), d2)))"


section \<open>Workout sessions: POST /api/workouts\<close>

record workout_set_payload =
  wsp_reps :: "int option"
  wsp_peso :: "real option"
  wsp_done :: bool

record workout_item_payload =
  wip_exerciseId :: "string option"
  wip_name :: "string option"
  wip_bodyPart :: "string option"
  wip_image :: "string option"
  wip_sets :: "workout_set_payload list option"

record workout_payload =
  wp_routineId :: "string option"
  wp_startedAt :: "int option"
  wp_finishedAt :: "int option"
  wp_durationSec :: "int option"
  wp_items :: "workout_item_payload list option"

text \<open>\<open>x || []\<close> on a list-valued field.\<close>

fun or_nil :: "'a list option \<Rightarrow> 'a list" where
  "or_nil None = []"
| "or_nil (Some xs) = xs"

text \<open>
  The handler calls \<open>nanoid(8)\<close> once for the session, once for every item and once for
  every set, in that order; \<open>gen k\<close> is the value of the \<open>k\<close>-th call of the request.
\<close>

fun workout_set_stmts :: "(nat \<Rightarrow> string) \<Rightarrow> nat \<Rightarrow> string \<Rightarrow> workout_set_payload list \<Rightarrow> stmt list" where
  "workout_set_stmts gen k wi [] = []"
| "workout_set_stmts gen k wi (st # sts) =
     InsertWorkoutSet \<lparr>ws_id = ''ws_'' @ gen k, ws_workout_item_id = wi,
        ws_reps = wsp_reps st, ws_peso = wsp_peso st,
        ws_done = (if wsp_done st then 1 else 0)\<rparr>
     # workout_set_stmts gen (Suc k) wi sts"

fun workout_item_stmts ::
    "(nat \<Rightarrow> string) \<Rightarrow> nat \<Rightarrow> string \<Rightarrow> nat \<Rightarrow> workout_item_payload list \<Rightarrow> stmt list" where
  "workout_item_stmts gen k wid idx [] = []"
| "workout_item_stmts gen k wid idx (it # its) =
     InsertWorkoutItem \<lparr>wi_id = ''wi_'' @ gen k, wi_workout_id = wid,
        wi_exercise_id = wip_exerciseId it, wi_name = wip_name it,
        wi_bodyPart = wip_bodyPart it, wi_image = wip_image it,
        wi_order_index = int idx\<rparr>
     # workout_set_stmts gen (Suc k) (''wi_'' @ gen k) (or_nil (wip_sets it))
     @ workout_item_stmts gen (Suc k + length (or_nil (wip_sets it))) wid (Suc idx) its"

definition record_workout_tx :: "(nat \<Rightarrow> string) \<Rightarrow> workout_payload \<Rightarrow> stmt list" where
  "record_workout_tx gen s =
     InsertWorkout \<lparr>w_id = ''wo_'' @ gen 0, w_routine_id = wp_routineId s,
        w_startedAt = wp_startedAt s, w_finishedAt = wp_finishedAt s,
        w_durationSec = wp_durationSec s\<rparr>
     # workout_item_stmts gen 1 (''wo_'' @ gen 0) 0 (or_nil (wp_items s))"

definition post_workout :: "(nat \<Rightarrow> string) \<Rightarrow> workout_payload \<Rightarrow> db \<Rightarrow> (error + string) \<times> db" where
  "post_workout gen s d =
     (case transaction (record_workout_tx gen s) d of
        None \<Rightarrow> (Inl StorageError, d)
      | Some d' \<Rightarrow> (Inr (''wo_'' @ gen 0), d'))"

text \<open>The rows a list of statements inserts into the three workout tables.\<close>

fun workouts_in :: "stmt list \<Rightarrow> workout list" where
  "workouts_in [] = []"
| "workouts_in (InsertWorkout w # ss) = w # workouts_in ss"
| "workouts_in (s # ss) = workouts_in ss"

fun items_in :: "stmt list \<Rightarrow> workout_item list" where
  "items_in [] = []"
| "items_in (InsertWorkoutItem i # ss) = i # items_in ss"
| "items_in (s # ss) = items_in ss"

fun sets_in :: "stmt list \<Rightarrow> workout_set list" where
  "sets_in [] = []"
| "sets_in (InsertWorkoutSet x # ss) = x # sets_in ss"
| "sets_in (s # ss) = sets_in ss"

text \<open>The columns a payload set is stored with.\<close>

definition set_columns :: "workout_set_payload \<Rightarrow> int option \<times> real option \<times> int" where
  "set_columns st = (wsp_reps st, wsp_peso st, if wsp_done st then 1 else 0)"

section \<open>Requests that write\<close>

text \<open>
  The endpoints that run a writing statement, each with the values the environment gives
  it (clock readings and generated ids) and the request's parameters and body. The GET
  endpoints only run SELECT statements.
\<close>

datatype request =
    PostExercise string exercise_fields
  | PostRoutine int string "string option"
  | PutRoutine int int string routine_patch
  | DeleteRoutineExerciseReq int string string
  | PostRoutineExercise int string string "string option"
  | PostRoutineSet int string string string "int option" "real option"
  | DeleteRoutineSetReq int string string string
  | PostWorkout "nat \<Rightarrow> string" workout_payload

text \<open>Whether the response is a success, and the database the request leaves.\<close>

definition outcome :: "(error + 'a) \<times> db \<Rightarrow> bool \<times> db" where
  "outcome x = (case fst x of Inl e \<Rightarrow> False | Inr v \<Rightarrow> True, snd x)"

fun handle :: "request \<Rightarrow> db \<Rightarrow> bool \<times> db" where
  "handle (PostExercise nano p) d = outcome (post_exercise nano p d)"
| "handle (PostRoutine t nano name) d = outcome (post_routine t nano name d)"
| "handle (PutRoutine t1 t2 i body) d = outcome (put_routine t1 t2 i body d)"
| "handle (DeleteRoutineExerciseReq t i rexId) d = outcome (delete_routine_exercise t i rexId d)"
| "handle (PostRoutineExercise t nano i exerciseId) d =
     outcome (post_routine_exercise t nano i exerciseId d)"
| "handle (PostRoutineSet t nano i rexId reps peso) d =
     outcome (post_routine_set t nano i rexId reps peso d)"
| "handle (DeleteRoutineSetReq t i rexId setId) d = outcome (delete_routine_set t i rexId setId d)"
| "handle (PostWorkout gen s) d = outcome (post_workout gen s d)"

fun run :: "request list \<Rightarrow> db \<Rightarrow> db" where
  "run [] d = d"
| "run (r # rs) d = run rs (snd (handle r d))"

fun is_post_workout :: "request \<Rightarrow> bool" where
  "is_post_workout (PostWorkout gen s) = True"
| "is_post_workout r = False"

text \<open>
  The routine a request is addressed to and the clock reading it writes to that routine's
  \<open>updatedAt\<close> when the request goes through: a rename with a non-blank name, a set edit
  (an \<open>exercises\<close> array), adding or removing a set, adding an exercise (with an
  \<open>exerciseId\<close>) or removing one.
\<close>

fun touch_of :: "request \<Rightarrow> (string \<times> int) option" where
  "touch_of (PutRoutine t1 t2 i body) =
     (case rp_exercises body of
        Some list \<Rightarrow> Some (i, t2)
      | None \<Rightarrow> if truthy (rp_name body) then Some (i, t1) else None)"
| "touch_of (DeleteRoutineExerciseReq t i rexId) = Some (i, t)"
| "touch_of (PostRoutineExercise t nano i exerciseId) =
     (if truthy exerciseId then Some (i, t) else None)"
| "touch_of (PostRoutineSet t nano i rexId reps peso) = Some (i, t)"
| "touch_of (DeleteRoutineSetReq t i rexId setId) = Some (i, t)"
| "touch_of r = None"

text \<open>
  Every request of the list is a mutation of routine \<open>i\<close> that goes through, with the
  clock readings \<open>ts\<close> in order.
\<close>

fun mutations_of :: "string \<Rightarrow> request list \<Rightarrow> int list \<Rightarrow> db \<Rightarrow> bool" where
  "mutations_of i [] ts d = (ts = [])"
| "mutations_of i (r # rs) [] d = False"
| "mutations_of i (r # rs) (t # ts) d =
     (touch_of r = Some (i, t) \<and> fst (handle r d) \<and> mutations_of i rs ts (snd (handle r d)))"

text \<open>The routine's \<open>updatedAt\<close> after each request of the list.\<close>

fun updated_trace :: "string \<Rightarrow> request list \<Rightarrow> db \<Rightarrow> int option list" where
  "updated_trace i [] d = []"
| "updated_trace i (r # rs) d =
     updated_at (snd (handle r d)) i # updated_trace i rs (snd (handle r d))"

section \<open>Notions the properties are stated with\<close>

text \<open>What the endpoint reports for an exercise: the weight and reps of each of its rows.\<close>

definition reported :: "db \<Rightarrow> string option \<Rightarrow> (real option \<times> int option) list" where
  "reported d e =
     map (\<lambda>m. (pr_weight m, reps_at_pr m)) (filter (\<lambda>m. mk_exercise_id m = e) (get_marks d))"

text \<open>
  The set entries a PUT body provides, in the order the handler visits them; the last
  entry that carries a given set identity (an absent or empty \<open>id\<close> is no identity); and
  a stored set with that entry's values applied.
\<close>

definition provided_sets :: "exercise_patch list \<Rightarrow> set_patch list" where
  "provided_sets list = concat (map (\<lambda>ex. or_nil (xp_sets ex)) list)"

definition last_patch :: "string \<Rightarrow> set_patch list \<Rightarrow> set_patch option" where
  "last_patch k ps = (if k = [] then None else find (\<lambda>p. sp_id p = Some k) (rev ps))"

definition apply_patches :: "set_patch list \<Rightarrow> routine_set \<Rightarrow> routine_set" where
  "apply_patches ps s =
     (case last_patch (rs_id s) ps of
        None \<Rightarrow> s
      | Some p \<Rightarrow> s\<lparr>rs_reps := sp_reps p, rs_peso := sp_peso p\<rparr>)"

text \<open>The statements that write a routine's \<open>updatedAt\<close>.\<close>

fun writes_updatedAt :: "stmt \<Rightarrow> bool" where
  "writes_updatedAt (UpdateRoutineName n t i) = True"
| "writes_updatedAt (UpdateRoutineUpdatedAt t i) = True"
| "writes_updatedAt s = False"

text \<open>The statements that insert into a workout table.\<close>

fun is_workout_insert :: "stmt \<Rightarrow> bool" where
  "is_workout_insert (InsertWorkout w) = True"
| "is_workout_insert (InsertWorkoutItem i) = True"
| "is_workout_insert (InsertWorkoutSet s) = True"
| "is_workout_insert s = False"

text \<open>The denormalized fields of a stored item and of a payload item; the values of a stored set.\<close>

definition item_columns ::
    "workout_item \<Rightarrow> string option \<times> string option \<times> string option \<times> string option" where
  "item_columns r = (wi_exercise_id r, wi_name r, wi_bodyPart r, wi_image r)"

definition payload_columns ::
    "workout_item_payload \<Rightarrow> string option \<times> string option \<times> string option \<times> string option" where
  "payload_columns it = (wip_exerciseId it, wip_name it, wip_bodyPart it, wip_image it)"

definition row_columns :: "workout_set \<Rightarrow> int option \<times> real option \<times> int" where
  "row_columns r = (ws_reps r, ws_peso r, ws_done r)"

text \<open>The three tables that hold the recorded sessions.\<close>

definition session_tables :: "db \<Rightarrow> workout list \<times> workout_item list \<times> workout_set list" where
  "session_tables d = (workouts d, workout_items d, workout_sets d)"

text \<open>The item ids a payload's sets are stored under: each item's id, once per set of the item.\<close>

definition owners :: "workout_item list \<Rightarrow> workout_item_payload list \<Rightarrow> string list" where
  "owners rows its =
     concat (map (\<lambda>(r, it). replicate (length (or_nil (wip_sets it))) (wi_id r)) (zip rows its))"

text \<open>
  An entry of a full routine in the words of the specification: the link, joined to the
  catalog fields of its exercise, with the link's sets in insertion order. It is written
  on the stored rows; \<open>sets\<close> is the table of routine sets.
\<close>

definition full_entry :: "routine_set list \<Rightarrow> routine_exercise \<Rightarrow> exercise \<Rightarrow> routine_exercise_view" where
  "full_entry sets l e =
     \<lparr>rv_id = re_id l, rv_order_index = re_order_index l,
      rv_exercise = \<lparr>ev_id = ex_id e, ev_name = ex_name e, ev_image = ex_image e,
        ev_bodyPart = ex_bodyPart e, ev_primaryMuscles = ex_primaryMuscles e,
        ev_secondaryMuscles = ex_secondaryMuscles e, ev_equipment = ex_equipment e\<rparr>,
      rv_sets = map (\<lambda>s. \<lparr>sv_id = rs_id s, sv_reps = rs_reps s, sv_peso = rs_peso s\<rparr>)
        (filter (\<lambda>s. rs_routine_exercise_id s = re_id l) sets)\<rparr>"

text \<open>
  The stores a list of statements passes through: the store after each statement, in
  the order the statements run, up to a statement that throws.
\<close>

fun steps :: "stmt list \<Rightarrow> db \<Rightarrow> db list" where
  "steps [] d = []"
| "steps (s # ss) d = (case exec s d of None \<Rightarrow> [] | Some d' \<Rightarrow> d' # steps ss d')"

section \<open>Example stores\<close>

definition pr_db :: db where
  "pr_db = empty_db\<lparr>
     workout_items := [
       \<lparr>wi_id = ''i1'', wi_workout_id = ''w1'', wi_exercise_id = Some ''E'',
         wi_name = Some ''Press'', wi_bodyPart = None, wi_image = None, wi_order_index = 0\<rparr>,
       \<lparr>wi_id = ''i2'', wi_workout_id = ''w2'', wi_exercise_id = Some ''E'',
         wi_name = Some ''Press'', wi_bodyPart = None, wi_image = None, wi_order_index = 0\<rparr>,
       \<lparr>wi_id = ''i3'', wi_workout_id = ''w2'', wi_exercise_id = Some ''A'',
         wi_name = Some ''Abs'', wi_bodyPart = None, wi_image = None, wi_order_index = 1\<rparr>,
       \<lparr>wi_id = ''i4'', wi_workout_id = ''w2'', wi_exercise_id = Some ''B'',
         wi_name = Some ''Curl'', wi_bodyPart = None, wi_image = None, wi_order_index = 2\<rparr>],
     workout_sets := [
       \<lparr>ws_id = ''s1'', ws_workout_item_id = ''i1'', ws_reps = Some 5, ws_peso = Some 100,
         ws_done = 1\<rparr>,
       \<lparr>ws_id = ''s2'', ws_workout_item_id = ''i2'', ws_reps = Some 8, ws_peso = Some 100,
         ws_done = 1\<rparr>,
       \<lparr>ws_id = ''s3'', ws_workout_item_id = ''i3'', ws_reps = None, ws_peso = None,
         ws_done = 0\<rparr>,
       \<lparr>ws_id = ''s4'', ws_workout_item_id = ''i3'', ws_reps = Some 12, ws_peso = None,
         ws_done = 1\<rparr>,
       \<lparr>ws_id = ''s5'', ws_workout_item_id = ''i4'', ws_reps = Some 10, ws_peso = Some 50,
         ws_done = 1\<rparr>,
       \<lparr>ws_id = ''s6'', ws_workout_item_id = ''i4'', ws_reps = None, ws_peso = Some 60,
         ws_done = 1\<rparr>]\<rparr>"

definition null_reps_db :: db where
  "null_reps_db = empty_db\<lparr>
     workout_items := [
       \<lparr>wi_id = ''i1'', wi_workout_id = ''w1'', wi_exercise_id = Some ''E'',
         wi_name = Some ''Press'', wi_bodyPart = None, wi_image = None, wi_order_index = 0\<rparr>],
     workout_sets := [
       \<lparr>ws_id = ''s1'', ws_workout_item_id = ''i1'', ws_reps = None, ws_peso = Some 100,
         ws_done = 1\<rparr>]\<rparr>"

definition routines_db :: db where
  "routines_db = empty_db\<lparr>
     exercises := [
       \<lparr>ex_id = ''e1'', ex_name = ''Press'', ex_image = None, ex_bodyPart = Some ''Chest'',
         ex_primaryMuscles = None, ex_secondaryMuscles = None, ex_equipment = None,
         ex_isCustom = 0\<rparr>,
       \<lparr>ex_id = ''e2'', ex_name = ''Curl'', ex_image = None, ex_bodyPart = Some ''Arms'',
         ex_primaryMuscles = None, ex_secondaryMuscles = None, ex_equipment = None,
         ex_isCustom = 0\<rparr>],
     routines := [
       \<lparr>r_id = ''R1'', r_name = ''Push'', r_createdAt = 5, r_updatedAt = 10\<rparr>,
       \<lparr>r_id = ''R2'', r_name = ''Pull'', r_createdAt = 6, r_updatedAt = 10\<rparr>,
       \<lparr>r_id = ''R3'', r_name = ''Legs'', r_createdAt = 7, r_updatedAt = 10\<rparr>],
     routine_exercises := [
       \<lparr>re_id = ''x1'', re_routine_id = ''R1'', re_exercise_id = ''e1'', re_order_index = 1\<rparr>,
       \<lparr>re_id = ''x3'', re_routine_id = ''R1'', re_exercise_id = ''e2'', re_order_index = 3\<rparr>,
       \<lparr>re_id = ''X'', re_routine_id = ''R2'', re_exercise_id = ''e2'', re_order_index = 1\<rparr>],
     routine_sets := [
       \<lparr>rs_id = ''s1'', rs_routine_exercise_id = ''x1'', rs_reps = Some 10, rs_peso = Some 40\<rparr>,
       \<lparr>rs_id = ''s2'', rs_routine_exercise_id = ''X'', rs_reps = Some 8, rs_peso = Some 20\<rparr>,
       \<lparr>rs_id = ''s3'', rs_routine_exercise_id = ''X'', rs_reps = None, rs_peso = None\<rparr>]\<rparr>"

definition edit_body :: routine_patch where
  "edit_body = \<lparr>rp_name = None, rp_exercises = Some
     [\<lparr>xp_id = Some ''x1'', xp_sets = Some
        [\<lparr>sp_id = Some ''s1'', sp_reps = Some 12, sp_peso = Some 45\<rparr>,
         \<lparr>sp_id = Some ''unknown'', sp_reps = Some 1, sp_peso = Some 1\<rparr>,
         \<lparr>sp_id = None, sp_reps = Some 2, sp_peso = Some 2\<rparr>]\<rparr>,
      \<lparr>xp_id = Some ''x3'', xp_sets = None\<rparr>]\<rparr>"

definition mutation_requests :: "request list" where
  "mutation_requests =
     [PostRoutineSet 20 ''n1'' ''R2'' ''X'' (Some 5) None,
      PutRoutine 25 30 ''R2'' edit_body,
      DeleteRoutineExerciseReq 40 ''R2'' ''X'']"

definition session_ids :: "nat \<Rightarrow> string" where
  "session_ids k = [''a'', ''b'', ''c'', ''d'', ''e'', ''f'', ''g''] ! k"

definition session_payload :: workout_payload where
  "session_payload =
     \<lparr>wp_routineId = Some ''R1'', wp_startedAt = Some 100, wp_finishedAt = Some 160,
      wp_durationSec = Some 60,
      wp_items = Some
        [\<lparr>wip_exerciseId = Some ''e1'', wip_name = Some ''Press'', wip_bodyPart = Some ''Chest'',
           wip_image = None,
           wip_sets = Some [\<lparr>wsp_reps = Some 10, wsp_peso = Some 40, wsp_done = True\<rparr>,
                            \<lparr>wsp_reps = Some 8, wsp_peso = Some 45, wsp_done = False\<rparr>]\<rparr>,
         \<lparr>wip_exerciseId = Some ''e2'', wip_name = Some ''Curl'', wip_bodyPart = Some ''Arms'',
           wip_image = None,
           wip_sets = Some [\<lparr>wsp_reps = Some 12, wsp_peso = Some 15, wsp_done = True\<rparr>,
                            \<lparr>wsp_reps = None, wsp_peso = None, wsp_done = False\<rparr>]\<rparr>]\<rparr>"

definition recorded_db :: db where
  "recorded_db = snd (post_workout session_ids session_payload routines_db)"

definition later_edits :: "request list" where
  "later_edits =
     [PutRoutine 200 201 ''R1'' \<lparr>rp_name = Some ''Renamed'', rp_exercises = None\<rparr>,
      PutRoutine 210 211 ''R1'' edit_body,
      DeleteRoutineExerciseReq 220 ''R1'' ''x1'',
      PostExercise ''n9''
        \<lparr>xf_name = Some ''Press'', xf_image = None, xf_bodyPart = Some ''Back'',
         xf_primaryMuscles = None, xf_secondaryMuscles = None, xf_equipment = None\<rparr>]"

section \<open>Properties of the personal records\<close>

lemma rn1_above: "Suc 0 < k \<Longrightarrow> filter (\<lambda>(rn, r). rn = Suc 0) (enumerate k xs) = []"
  by (induction xs arbitrary: k) auto

lemma rn1_enumerate: "map snd (filter (\<lambda>(rn, r). rn = 1) (enumerate 1 xs)) = take 1 xs"
  by (cases xs) (simp_all add: rn1_above)

lemma winners_eq:
  "winners d = concat (map (\<lambda>e. take 1 (sort_key rank_key
        (filter (\<lambda>r. rk_exercise_id r = e) (joined d))))
       (remdups (map rk_exercise_id (joined d))))"
  unfolding winners_def ranked_def
  by (simp add: filter_concat map_concat comp_def rn1_enumerate del: One_nat_def)

lemma rank_key_le: "rank_key a \<le> rank_key b \<longleftrightarrow> ranks_at_or_above a b"
  by (cases "rk_peso a"; cases "rk_peso b"; cases "rk_reps a"; cases "rk_reps b")
     (auto simp: rank_key_def ranks_at_or_above_def)

lemma ranks_antisym:
  "ranks_at_or_above a b \<Longrightarrow> ranks_at_or_above b a \<Longrightarrow>
     rk_peso a = rk_peso b \<and> rk_reps a = rk_reps b"
  by (cases "rk_peso a"; cases "rk_peso b"; cases "rk_reps a"; cases "rk_reps b")
     (auto simp: ranks_at_or_above_def)

lemma hd_sort_key_min:
  assumes "xs \<noteq> []"
  shows "hd (sort_key f xs) \<in> set xs \<and> (\<forall>y\<in>set xs. f (hd (sort_key f xs)) \<le> f y)"
proof -
  let ?ys = "sort_key f xs"
  from assms have ne: "?ys \<noteq> []"
    by (metis length_sort length_0_conv)
  then obtain z zs where ys: "?ys = z # zs"
    by (cases ?ys) auto
  have "sorted (map f ?ys)" by simp
  with ys have "\<forall>y\<in>set (z # zs). f z \<le> f y" by auto
  moreover have "set (z # zs) = set xs" using ys by (metis set_sort)
  ultimately show ?thesis using ys by auto
qed

lemma concat_map_single:
  "(\<And>x. x \<in> set xs \<Longrightarrow> f x = [g x]) \<Longrightarrow> concat (map f xs) = map g xs"
  by (induction xs) auto

lemma winner_of_props:
  assumes "e \<in> set (map rk_exercise_id (joined d))"
  shows "rk_exercise_id (winner_of d e) = e" and "top_ranked d (winner_of d e)"
proof -
  let ?p = "filter (\<lambda>r. rk_exercise_id r = e) (joined d)"
  from assms have ne: "?p \<noteq> []" by (auto simp: filter_empty_conv)
  from hd_sort_key_min[OF ne, of rank_key]
  have mem: "winner_of d e \<in> set ?p"
    and least: "\<forall>y\<in>set ?p. rank_key (winner_of d e) \<le> rank_key y"
    by (simp_all add: winner_of_def)
  from mem show e: "rk_exercise_id (winner_of d e) = e" by simp
  from mem least e show "top_ranked d (winner_of d e)"
    by (auto simp: top_ranked_def rank_key_le)
qed

lemma winners_map:
  "winners d = map (winner_of d) (remdups (map rk_exercise_id (joined d)))"
proof -
  have "take 1 (sort_key rank_key (filter (\<lambda>r. rk_exercise_id r = e) (joined d))) = [winner_of d e]"
    if "e \<in> set (map rk_exercise_id (joined d))" for e
  proof -
    from that have "filter (\<lambda>r. rk_exercise_id r = e) (joined d) \<noteq> []"
      by (auto simp: filter_empty_conv)
    then have "sort_key rank_key (filter (\<lambda>r. rk_exercise_id r = e) (joined d)) \<noteq> []"
      by (metis length_sort length_0_conv)
    then show ?thesis
      by (cases "sort_key rank_key (filter (\<lambda>r. rk_exercise_id r = e) (joined d))")
         (simp_all add: winner_of_def)
  qed
  then show ?thesis
    unfolding winners_eq by (intro concat_map_single) simp
qed

lemma winners_exercise_ids:
  "map rk_exercise_id (winners d) = remdups (map rk_exercise_id (joined d))"
  unfolding winners_map map_map
  by (rule map_idI) (simp add: winner_of_props(1))

lemma filter_key_distinct:
  "distinct (map f xs) \<Longrightarrow> x \<in> set xs \<Longrightarrow> filter (\<lambda>y. f y = f x) xs = [x]"
proof (induction xs)
  case Nil
  then show ?case by simp
next
  case (Cons a xs)
  show ?case
  proof (cases "a = x")
    case True
    with Cons.prems have "f x \<notin> f ` set xs" by simp
    then have "\<forall>y\<in>set xs. f y \<noteq> f x" by (metis imageI)
    then have "filter (\<lambda>y. f y = f x) xs = []" by (simp add: filter_empty_conv)
    with True show ?thesis by simp
  next
    case False
    with Cons.prems have "x \<in> set xs" "f a \<noteq> f x" by auto
    with Cons show ?thesis by simp
  qed
qed

lemma marks_of_exercise:
  assumes "e \<in> set (map rk_exercise_id (joined d))"
  shows "filter (\<lambda>m. mk_exercise_id m = e) (get_marks d) = [select_mark (winner_of d e)]"
proof -
  have w: "winner_of d e \<in> set (winners d)"
    using assms by (simp add: winners_map)
  have d: "distinct (map rk_exercise_id (winners d))"
    by (simp add: winners_exercise_ids)
  have "filter (\<lambda>m. mk_exercise_id m = e) (get_marks d)
      = sort_key mk_name (map select_mark (filter (\<lambda>r. rk_exercise_id r = e) (winners d)))"
    by (simp add: get_marks_def filter_sort filter_map comp_def select_mark_def)
  also have "filter (\<lambda>r. rk_exercise_id r = e) (winners d) = [winner_of d e]"
    using filter_key_distinct[OF d w] assms by (simp add: winner_of_props(1))
  finally show ?thesis by simp
qed

lemma marks_exercise_ids:
  "set (map mk_exercise_id (get_marks d)) = set (map rk_exercise_id (joined d))"
proof -
  have "set (map mk_exercise_id (get_marks d)) = set (map rk_exercise_id (winners d))"
    by (simp add: get_marks_def image_image select_mark_def)
  then show ?thesis by (simp add: winners_exercise_ids)
qed

lemma joined_iff:
  "s \<in> set (joined d) \<longleftrightarrow>
     (\<exists>ws\<in>set (workout_sets d). \<exists>wi\<in>set (workout_items d).
        wi_id wi = ws_workout_item_id ws \<and>
        s = \<lparr>rk_exercise_id = wi_exercise_id wi, rk_name = wi_name wi,
              rk_bodyPart = wi_bodyPart wi, rk_image = wi_image wi,
              rk_peso = ws_peso ws, rk_reps = ws_reps ws\<rparr>)"
  by (auto simp: joined_def split: if_splits)

lemma reported_top_ranked:
  assumes "top_ranked d t"
  shows "reported d (rk_exercise_id t) = [(rk_peso t, coalesce (rk_reps t) (Some 0))]"
proof -
  let ?e = "rk_exercise_id t"
  let ?w = "winner_of d ?e"
  from assms have mem: "?e \<in> set (map rk_exercise_id (joined d))"
    by (auto simp: top_ranked_def)
  have w: "rk_exercise_id ?w = ?e" "top_ranked d ?w"
    using winner_of_props[OF mem] by simp_all
  from assms w have "ranks_at_or_above t ?w" "ranks_at_or_above ?w t"
    by (auto simp: top_ranked_def)
  then have "rk_peso t = rk_peso ?w \<and> rk_reps t = rk_reps ?w"
    by (rule ranks_antisym)
  then show ?thesis
    by (simp add: reported_def marks_of_exercise[OF mem] select_mark_def)
qed

lemma sorted_marks: "sorted (map mk_name (get_marks d))"
  by (simp add: get_marks_def)

lemma marks_are_winners:
  assumes "m \<in> set (get_marks d)"
  shows "\<exists>w\<in>set (winners d). top_ranked d w \<and> m = select_mark w"
proof -
  from assms obtain w where w: "w \<in> set (winners d)" "m = select_mark w"
    by (auto simp: get_marks_def)
  then obtain e where "e \<in> set (map rk_exercise_id (joined d))" "w = winner_of d e"
    by (auto simp: winners_map)
  with w show ?thesis using winner_of_props(2) by blast
qed

text \<open>
  C1 (amended). For every store and every exercise with recorded sets, the endpoint has
  exactly one row for the exercise, and the row reports the weight of the exercise's
  top-ranked set and its reps, a NULL reps shown as 0; the ranking is weight descending
  with nulls last, then reps descending with nulls last. Every exercise with a set has a
  top-ranked set, and the rows are sorted by name ascending.
\<close>

theorem marks_report_top_ranked_set:
  "(\<forall>t. top_ranked d t \<longrightarrow>
        reported d (rk_exercise_id t) = [(rk_peso t, coalesce (rk_reps t) (Some 0))]) \<and>
   (\<forall>s\<in>set (joined d). \<exists>t. top_ranked d t \<and> rk_exercise_id t = rk_exercise_id s) \<and>
   sorted (map mk_name (get_marks d))"
proof (intro conjI allI impI ballI)
  fix t assume "top_ranked d t"
  then show "reported d (rk_exercise_id t) = [(rk_peso t, coalesce (rk_reps t) (Some 0))]"
    by (rule reported_top_ranked)
next
  fix s assume "s \<in> set (joined d)"
  then have "rk_exercise_id s \<in> set (map rk_exercise_id (joined d))" by simp
  from winner_of_props[OF this]
  show "\<exists>t. top_ranked d t \<and> rk_exercise_id t = rk_exercise_id s" by blast
next
  show "sorted (map mk_name (get_marks d))" by (rule sorted_marks)
qed

lemmas marks_eval =
  joined_def top_ranked_def ranks_at_or_above_def reported_def get_marks_def winners_def
  ranked_def rank_key_def select_mark_def empty_db_def

theorem marks_report_top_ranked_set_witness:
  "top_ranked pr_db
     \<lparr>rk_exercise_id = Some ''E'', rk_name = Some ''Press'', rk_bodyPart = None,
      rk_image = None, rk_peso = Some 100, rk_reps = Some 8\<rparr> \<and>
   reported pr_db (Some ''E'') = [(Some 100, Some 8)] \<and>
   map mk_name (get_marks pr_db) = [Some ''Abs'', Some ''Curl'', Some ''Press'']"
proof -
  let ?t = "\<lparr>rk_exercise_id = Some ''E'', rk_name = Some ''Press'', rk_bodyPart = None,
      rk_image = None, rk_peso = Some 100, rk_reps = Some (8::int)\<rparr>"
  have h: "top_ranked pr_db ?t"
    by (simp add: marks_eval pr_db_def)
  from marks_report_top_ranked_set[of pr_db] h
  have "reported pr_db (rk_exercise_id ?t) = [(rk_peso ?t, coalesce (rk_reps ?t) (Some 0))]"
    by blast
  moreover have "map mk_name (get_marks pr_db) = [Some ''Abs'', Some ''Curl'', Some ''Press'']"
    by (simp add: marks_eval pr_db_def)
  ultimately show ?thesis using h by simp
qed

text \<open>
  C1 as stated fails where the top-ranked set has NULL reps: the only set of the exercise
  has weight 100 and no reps, and the row reports reps 0, not the reps of that set.
\<close>

theorem marks_null_reps_counterexample:
  "top_ranked null_reps_db
     \<lparr>rk_exercise_id = Some ''E'', rk_name = Some ''Press'', rk_bodyPart = None,
      rk_image = None, rk_peso = Some 100, rk_reps = None\<rparr> \<and>
   map ws_reps (workout_sets null_reps_db) = [None] \<and>
   reported null_reps_db (Some ''E'') = [(Some 100, Some 0)]"
  by (simp add: marks_eval null_reps_db_def)

lemma marks_only_null_weights:
  assumes mem: "e \<in> set (map rk_exercise_id (joined d))"
    and nul: "\<forall>s\<in>set (joined d). rk_exercise_id s = e \<longrightarrow> rk_peso s = None"
  shows "map pr_weight (filter (\<lambda>m. mk_exercise_id m = e) (get_marks d)) = [None]"
proof -
  from winner_of_props[OF mem] have "winner_of d e \<in> set (joined d)"
    and "rk_exercise_id (winner_of d e) = e"
    by (simp_all add: top_ranked_def)
  with nul have "rk_peso (winner_of d e) = None" by blast
  then show ?thesis
    by (simp add: marks_of_exercise[OF mem] select_mark_def)
qed

text \<open>
  C8. An exercise has a row in the personal records exactly when some workout item of the
  exercise owns at least one workout set; and when every recorded set of such an exercise
  has a NULL weight, the exercise still has its one row, with a NULL \<open>pr_weight\<close>.
\<close>

theorem marks_presence:
  "(e \<in> set (map mk_exercise_id (get_marks d)) \<longleftrightarrow>
      (\<exists>wi\<in>set (workout_items d). \<exists>ws\<in>set (workout_sets d).
          wi_id wi = ws_workout_item_id ws \<and> wi_exercise_id wi = e)) \<and>
   (e \<in> set (map rk_exercise_id (joined d)) \<and>
    (\<forall>s\<in>set (joined d). rk_exercise_id s = e \<longrightarrow> rk_peso s = None) \<longrightarrow>
      map pr_weight (filter (\<lambda>m. mk_exercise_id m = e) (get_marks d)) = [None])"
proof (intro conjI impI)
  have "e \<in> set (map rk_exercise_id (joined d)) \<longleftrightarrow>
      (\<exists>wi\<in>set (workout_items d). \<exists>ws\<in>set (workout_sets d).
          wi_id wi = ws_workout_item_id ws \<and> wi_exercise_id wi = e)"
    by (force simp: joined_iff image_iff)
  then show "e \<in> set (map mk_exercise_id (get_marks d)) \<longleftrightarrow>
      (\<exists>wi\<in>set (workout_items d). \<exists>ws\<in>set (workout_sets d).
          wi_id wi = ws_workout_item_id ws \<and> wi_exercise_id wi = e)"
    using marks_exercise_ids[of d] by simp
next
  assume "e \<in> set (map rk_exercise_id (joined d)) \<and>
    (\<forall>s\<in>set (joined d). rk_exercise_id s = e \<longrightarrow> rk_peso s = None)"
  then show "map pr_weight (filter (\<lambda>m. mk_exercise_id m = e) (get_marks d)) = [None]"
    using marks_only_null_weights by blast
qed

theorem marks_presence_witness:
  "Some ''A'' \<in> set (map mk_exercise_id (get_marks pr_db)) \<and>
   Some ''Z'' \<notin> set (map mk_exercise_id (get_marks pr_db)) \<and>
   map ws_peso (filter (\<lambda>ws. ws_workout_item_id ws = ''i3'') (workout_sets pr_db)) = [None, None] \<and>
   map pr_weight (filter (\<lambda>m. mk_exercise_id m = Some ''A'') (get_marks pr_db)) = [None]"
proof -
  have own: "\<exists>wi\<in>set (workout_items pr_db). \<exists>ws\<in>set (workout_sets pr_db).
          wi_id wi = ws_workout_item_id ws \<and> wi_exercise_id wi = Some ''A''"
    by (simp add: pr_db_def empty_db_def)
  have none: "\<not> (\<exists>wi\<in>set (workout_items pr_db). \<exists>ws\<in>set (workout_sets pr_db).
          wi_id wi = ws_workout_item_id ws \<and> wi_exercise_id wi = Some ''Z'')"
    by (simp add: pr_db_def empty_db_def)
  have hyp: "Some ''A'' \<in> set (map rk_exercise_id (joined pr_db)) \<and>
    (\<forall>s\<in>set (joined pr_db). rk_exercise_id s = Some ''A'' \<longrightarrow> rk_peso s = None)"
    by (simp add: joined_def pr_db_def empty_db_def)
  have sets: "map ws_peso (filter (\<lambda>ws. ws_workout_item_id ws = ''i3'') (workout_sets pr_db))
      = [None, None]"
    by (simp add: pr_db_def empty_db_def)
  from marks_presence[of "Some ''A''" pr_db] own hyp
  have "Some ''A'' \<in> set (map mk_exercise_id (get_marks pr_db))"
    and "map pr_weight (filter (\<lambda>m. mk_exercise_id m = Some ''A'') (get_marks pr_db)) = [None]"
    by blast+
  moreover from marks_presence[of "Some ''Z''" pr_db] none
  have "Some ''Z'' \<notin> set (map mk_exercise_id (get_marks pr_db))"
    by blast
  ultimately show ?thesis using sets by blast
qed

text \<open>
  C10. Every row of the personal records is the projection of a winning set, a top-ranked
  set of its exercise; its \<open>reps_at_pr\<close> is never NULL, and is 0 when the winning set has
  NULL reps, while its \<open>pr_weight\<close> is the winning set's weight, NULL when that is NULL.
\<close>

theorem marks_reps_never_null:
  "\<forall>m\<in>set (get_marks d).
      reps_at_pr m \<noteq> None \<and>
      (\<exists>w\<in>set (winners d). top_ranked d w \<and> m = select_mark w \<and>
         (rk_reps w = None \<longrightarrow> reps_at_pr m = Some 0) \<and>
         (rk_peso w = None \<longrightarrow> pr_weight m = None) \<and>
         pr_weight m = rk_peso w)"
proof
  fix m assume "m \<in> set (get_marks d)"
  from marks_are_winners[OF this] obtain w
    where w: "w \<in> set (winners d)" "top_ranked d w" "m = select_mark w" by blast
  have "reps_at_pr m \<noteq> None"
    using w(3) by (cases "rk_reps w") (simp_all add: select_mark_def)
  moreover have "rk_reps w = None \<longrightarrow> reps_at_pr m = Some 0"
    using w(3) by (simp add: select_mark_def)
  moreover have "pr_weight m = rk_peso w"
    using w(3) by (simp add: select_mark_def)
  ultimately show "reps_at_pr m \<noteq> None \<and>
      (\<exists>w\<in>set (winners d). top_ranked d w \<and> m = select_mark w \<and>
         (rk_reps w = None \<longrightarrow> reps_at_pr m = Some 0) \<and>
         (rk_peso w = None \<longrightarrow> pr_weight m = None) \<and>
         pr_weight m = rk_peso w)"
    using w by auto
qed

theorem marks_reps_never_null_witness:
  "winners pr_db =
     [\<lparr>rk_exercise_id = Some ''E'', rk_name = Some ''Press'', rk_bodyPart = None,
       rk_image = None, rk_peso = Some 100, rk_reps = Some 8\<rparr>,
      \<lparr>rk_exercise_id = Some ''A'', rk_name = Some ''Abs'', rk_bodyPart = None,
       rk_image = None, rk_peso = None, rk_reps = Some 12\<rparr>,
      \<lparr>rk_exercise_id = Some ''B'', rk_name = Some ''Curl'', rk_bodyPart = None,
       rk_image = None, rk_peso = Some 60, rk_reps = None\<rparr>] \<and>
   map reps_at_pr (get_marks pr_db) = [Some 12, Some 0, Some 8] \<and>
   map pr_weight (get_marks pr_db) = [None, Some 60, Some 100] \<and>
   None \<notin> set (map reps_at_pr (get_marks pr_db))"
proof -
  have "None \<notin> set (map reps_at_pr (get_marks pr_db))"
    using marks_reps_never_null[of pr_db] by force
  moreover have "winners pr_db =
     [\<lparr>rk_exercise_id = Some ''E'', rk_name = Some ''Press'', rk_bodyPart = None,
       rk_image = None, rk_peso = Some 100, rk_reps = Some 8\<rparr>,
      \<lparr>rk_exercise_id = Some ''A'', rk_name = Some ''Abs'', rk_bodyPart = None,
       rk_image = None, rk_peso = None, rk_reps = Some 12\<rparr>,
      \<lparr>rk_exercise_id = Some ''B'', rk_name = Some ''Curl'', rk_bodyPart = None,
       rk_image = None, rk_peso = Some 60, rk_reps = None\<rparr>]"
    by (simp add: marks_eval pr_db_def)
  moreover have "map reps_at_pr (get_marks pr_db) = [Some 12, Some 0, Some 8]"
    by (simp add: marks_eval pr_db_def)
  moreover have "map pr_weight (get_marks pr_db) = [None, Some 60, Some 100]"
    by (simp add: marks_eval pr_db_def)
  ultimately show ?thesis by blast
qed

section \<open>Properties of the routine handlers\<close>

lemma updated_at_touched:
  "map_option r_updatedAt (find (\<lambda>r. r_id r = j)
      (map (\<lambda>r. if r_id r = i then r\<lparr>r_updatedAt := t\<rparr> else r) rs)) =
   (if j = i then map_option (\<lambda>u. t) (find (\<lambda>r. r_id r = j) rs)
    else map_option r_updatedAt (find (\<lambda>r. r_id r = j) rs))"
  by (induction rs) auto

lemma updated_at_renamed:
  "map_option r_updatedAt (find (\<lambda>r. r_id r = j)
      (map (\<lambda>r. if r_id r = i then r\<lparr>r_name := n, r_updatedAt := t\<rparr> else r) rs)) =
   (if j = i then map_option (\<lambda>u. t) (find (\<lambda>r. r_id r = j) rs)
    else map_option r_updatedAt (find (\<lambda>r. r_id r = j) rs))"
  by (induction rs) auto

lemma find_id_exists: "i \<in> set (map r_id rs) \<longleftrightarrow> (\<exists>r. find (\<lambda>r. r_id r = i) rs = Some r)"
  by (induction rs) auto

lemma updated_at_exists: "i \<in> set (map r_id (routines d)) \<longleftrightarrow> (\<exists>u. updated_at d i = Some u)"
  using find_id_exists[of i "routines d"] by (simp add: updated_at_def)

lemma touched_self:
  assumes "i \<in> set (map r_id (routines d))"
    and "routines d' = map (\<lambda>r. if r_id r = i then r\<lparr>r_updatedAt := t\<rparr> else r) (routines d)"
  shows "updated_at d' i = Some t"
proof -
  from assms(1) obtain r where "find (\<lambda>r. r_id r = i) (routines d) = Some r"
    using find_id_exists[of i "routines d"] by blast
  then show ?thesis
    unfolding updated_at_def assms(2) updated_at_touched by simp
qed

lemma touched_other:
  assumes "j \<noteq> i"
    and "routines d' = map (\<lambda>r. if r_id r = i then r\<lparr>r_updatedAt := t\<rparr> else r) (routines d)"
  shows "updated_at d' j = updated_at d j"
  unfolding updated_at_def assms(2) updated_at_touched using assms(1) by simp

lemma sql_max_Max: "sql_max xs = (if xs = [] then None else Some (Max (set xs)))"
  by (induction xs) (auto simp: max.commute)

lemma next_order_Max:
  "next_order d i =
     (let ords = map re_order_index (filter (\<lambda>l. re_routine_id l = i) (routine_exercises d))
      in if ords = [] then 1 else Max (set ords) + 1)"
  by (simp add: next_order_def sql_max_Max Let_def)

lemma loadRoutineFull_updatedAt:
  "updated_at d i = Some t \<Longrightarrow> \<exists>v. loadRoutineFull i d = Some v \<and> fv_updatedAt v = t"
  by (auto simp: updated_at_def loadRoutineFull_def split: option.splits)

lemma exs_iff:
  "(l, e) \<in> set (exs d i) \<longleftrightarrow>
     l \<in> set (routine_exercises d) \<and> e \<in> set (exercises d) \<and>
     ex_id e = re_exercise_id l \<and> re_routine_id l = i"
  by (auto simp: exs_def split: if_splits)

lemma find_touched:
  "find (\<lambda>r. r_id r = i) (map (\<lambda>r. if r_id r = i then r\<lparr>r_updatedAt := t\<rparr> else r) rs) =
     map_option (\<lambda>r. r\<lparr>r_updatedAt := t\<rparr>) (find (\<lambda>r. r_id r = i) rs)"
  by (induction rs) auto

lemma find_id: "find (\<lambda>r. r_id r = i) rs = Some r \<Longrightarrow> r_id r = i"
  by (induction rs) (auto split: if_splits)

lemma join_pairs:
  "concat (map (\<lambda>l. concat (map (\<lambda>e. if P l e then [(l, e)] else []) es)) ls) =
     filter (\<lambda>(l, e). P l e) (List.product ls es)"
proof (induction ls)
  case Nil
  then show ?case by simp
next
  case (Cons l ls)
  have "concat (map (\<lambda>e. if P l e then [(l, e)] else []) es) =
      filter (\<lambda>(l, e). P l e) (map (Pair l) es)"
    by (induction es) auto
  with Cons show ?case by simp
qed

lemma exs_length:
  "length (exs d i) =
     length (filter (\<lambda>(l, e). ex_id e = re_exercise_id l \<and> re_routine_id l = i)
       (List.product (routine_exercises d) (exercises d)))"
  unfolding exs_def
  using join_pairs[of "\<lambda>l e. ex_id e = re_exercise_id l \<and> re_routine_id l = i"
      "exercises d" "routine_exercises d"]
  by simp

lemma exs_sorted: "sorted (map (\<lambda>(l, e). (re_order_index l, re_id l)) (exs d i))"
  unfolding exs_def by (rule sorted_sort_key)

text \<open>What \<open>loadRoutineFull\<close> returns for a stored routine, on the stored rows.\<close>

lemma loadRoutineFull_full:
  assumes "find (\<lambda>r. r_id r = i) (routines d) = Some r"
  shows "\<exists>v. loadRoutineFull i d = Some v \<and>
      fv_id v = i \<and> fv_name v = r_name r \<and> fv_createdAt v = r_createdAt r \<and>
      fv_updatedAt v = r_updatedAt r \<and>
      sorted (map (\<lambda>x. (rv_order_index x, rv_id x)) (fv_exercises v)) \<and>
      (\<forall>x. x \<in> set (fv_exercises v) \<longleftrightarrow>
         (\<exists>l\<in>set (routine_exercises d). \<exists>e\<in>set (exercises d).
            re_routine_id l = i \<and> ex_id e = re_exercise_id l \<and>
            x = full_entry (routine_sets d) l e)) \<and>
      length (fv_exercises v) =
        length (filter (\<lambda>(l, e). ex_id e = re_exercise_id l \<and> re_routine_id l = i)
          (List.product (routine_exercises d) (exercises d)))"
proof -
  let ?es = "map (\<lambda>(l, e). full_entry (routine_sets d) l e) (exs d i)"
  let ?v = "\<lparr>fv_id = r_id r, fv_name = r_name r, fv_createdAt = r_createdAt r,
      fv_updatedAt = r_updatedAt r, fv_exercises = ?es\<rparr>"
  have v: "loadRoutineFull i d = Some ?v"
    using assms by (simp add: loadRoutineFull_def full_entry_def setsByRex_def)
  have key: "map (\<lambda>x. (rv_order_index x, rv_id x)) ?es =
      map (\<lambda>(l, e). (re_order_index l, re_id l)) (exs d i)"
    by (simp add: full_entry_def case_prod_unfold)
  have srt: "sorted (map (\<lambda>x. (rv_order_index x, rv_id x)) ?es)"
    unfolding key by (rule exs_sorted)
  have mem: "x \<in> set ?es \<longleftrightarrow>
         (\<exists>l\<in>set (routine_exercises d). \<exists>e\<in>set (exercises d).
            re_routine_id l = i \<and> ex_id e = re_exercise_id l \<and>
            x = full_entry (routine_sets d) l e)" for x
  proof
    assume "x \<in> set ?es"
    then obtain l e where "(l, e) \<in> set (exs d i)" "x = full_entry (routine_sets d) l e"
      by auto
    then show "\<exists>l\<in>set (routine_exercises d). \<exists>e\<in>set (exercises d).
            re_routine_id l = i \<and> ex_id e = re_exercise_id l \<and>
            x = full_entry (routine_sets d) l e"
      unfolding exs_iff by blast
  next
    assume "\<exists>l\<in>set (routine_exercises d). \<exists>e\<in>set (exercises d).
            re_routine_id l = i \<and> ex_id e = re_exercise_id l \<and>
            x = full_entry (routine_sets d) l e"
    then obtain l e where "(l, e) \<in> set (exs d i)" "x = full_entry (routine_sets d) l e"
      unfolding exs_iff by blast
    then show "x \<in> set ?es" by force
  qed
  have len: "length ?es =
        length (filter (\<lambda>(l, e). ex_id e = re_exercise_id l \<and> re_routine_id l = i)
          (List.product (routine_exercises d) (exercises d)))"
    by (simp add: exs_length)
  have "fv_id ?v = i"
    using find_id[OF assms] by simp
  with v srt mem len show ?thesis
    by (intro exI[of _ ?v]) simp
qed

text \<open>
  C2. Adding an exercise to a routine is rejected with a ValidationError when
  \<open>exerciseId\<close> is missing (absent or empty). Otherwise, the generated link id being new,
  the link is stored at position 1 when the routine has no link and at the largest
  position of the routine's links plus 1 when it has some, the routine's \<open>updatedAt\<close>
  becomes the clock reading, and the response is the refreshed full routine: the id, name
  and creation time of the stored routine with the new \<open>updatedAt\<close>, and one entry for
  every link of the routine (the new one included) that joins an exercise of the catalog,
  each with the catalog fields and the link's stored sets in insertion order, the entries
  ordered by position and then link id.
\<close>

theorem add_exercise_next_position:
  "(\<not> truthy exerciseId \<longrightarrow>
      post_routine_exercise t nano i exerciseId d =
        (Inl (ValidationError ''exerciseId required''), d)) \<and>
   (truthy exerciseId \<and> ''rex_'' @ nano \<notin> set (map re_id (routine_exercises d)) \<longrightarrow>
      (let ords = map re_order_index (filter (\<lambda>l. re_routine_id l = i) (routine_exercises d));
           pos = (if ords = [] then 1 else Max (set ords) + 1);
           links = routine_exercises d @
                     [\<lparr>re_id = ''rex_'' @ nano, re_routine_id = i,
                       re_exercise_id = or_empty exerciseId, re_order_index = pos\<rparr>];
           d' = d\<lparr>routine_exercises := links,
                  routines := map (\<lambda>r. if r_id r = i then r\<lparr>r_updatedAt := t\<rparr> else r)
                     (routines d)\<rparr>
       in post_routine_exercise t nano i exerciseId d = (Inr (loadRoutineFull i d'), d') \<and>
          (i \<in> set (map r_id (routines d)) \<longrightarrow> updated_at d' i = Some t) \<and>
          (\<forall>r. find (\<lambda>r. r_id r = i) (routines d) = Some r \<longrightarrow>
             (\<exists>v. fst (post_routine_exercise t nano i exerciseId d) = Inr (Some v) \<and>
                fv_id v = i \<and> fv_name v = r_name r \<and> fv_createdAt v = r_createdAt r \<and>
                fv_updatedAt v = t \<and>
                sorted (map (\<lambda>x. (rv_order_index x, rv_id x)) (fv_exercises v)) \<and>
                (\<forall>x. x \<in> set (fv_exercises v) \<longleftrightarrow>
                   (\<exists>l\<in>set links. \<exists>e\<in>set (exercises d).
                      re_routine_id l = i \<and> ex_id e = re_exercise_id l \<and>
                      x = full_entry (routine_sets d) l e)) \<and>
                length (fv_exercises v) =
                  length (filter (\<lambda>(l, e). ex_id e = re_exercise_id l \<and> re_routine_id l = i)
                    (List.product links (exercises d)))))))"
proof (intro conjI impI)
  assume "\<not> truthy exerciseId"
  then show "post_routine_exercise t nano i exerciseId d =
        (Inl (ValidationError ''exerciseId required''), d)"
    by (simp add: post_routine_exercise_def)
next
  assume a: "truthy exerciseId \<and> ''rex_'' @ nano \<notin> set (map re_id (routine_exercises d))"
  let ?ords = "map re_order_index (filter (\<lambda>l. re_routine_id l = i) (routine_exercises d))"
  let ?pos = "if ?ords = [] then 1 else Max (set ?ords) + 1"
  let ?links = "routine_exercises d @
                     [\<lparr>re_id = ''rex_'' @ nano, re_routine_id = i,
                       re_exercise_id = or_empty exerciseId, re_order_index = ?pos\<rparr>]"
  let ?d' = "d\<lparr>routine_exercises := ?links,
                  routines := map (\<lambda>r. if r_id r = i then r\<lparr>r_updatedAt := t\<rparr> else r)
                     (routines d)\<rparr>"
  have pos: "next_order d i = ?pos"
    by (simp add: next_order_Max Let_def)
  have run: "post_routine_exercise t nano i exerciseId d = (Inr (loadRoutineFull i ?d'), ?d')"
    using a unfolding post_routine_exercise_def pos by (simp add: Let_def)
  have upd: "updated_at ?d' i = Some t" if "i \<in> set (map r_id (routines d))"
    using that by (intro touched_self[where d=d]) simp_all
  have full: "\<exists>v. fst (post_routine_exercise t nano i exerciseId d) = Inr (Some v) \<and>
                fv_id v = i \<and> fv_name v = r_name r \<and> fv_createdAt v = r_createdAt r \<and>
                fv_updatedAt v = t \<and>
                sorted (map (\<lambda>x. (rv_order_index x, rv_id x)) (fv_exercises v)) \<and>
                (\<forall>x. x \<in> set (fv_exercises v) \<longleftrightarrow>
                   (\<exists>l\<in>set ?links. \<exists>e\<in>set (exercises d).
                      re_routine_id l = i \<and> ex_id e = re_exercise_id l \<and>
                      x = full_entry (routine_sets d) l e)) \<and>
                length (fv_exercises v) =
                  length (filter (\<lambda>(l, e). ex_id e = re_exercise_id l \<and> re_routine_id l = i)
                    (List.product ?links (exercises d)))"
    if r: "find (\<lambda>r. r_id r = i) (routines d) = Some r" for r
  proof -
    have "find (\<lambda>r. r_id r = i) (routines ?d') = Some (r\<lparr>r_updatedAt := t\<rparr>)"
      using r by (simp add: find_touched)
    from loadRoutineFull_full[OF this] show ?thesis
      unfolding run by simp
  qed
  show "let ords = ?ords; pos = (if ords = [] then 1 else Max (set ords) + 1);
           links = routine_exercises d @
                     [\<lparr>re_id = ''rex_'' @ nano, re_routine_id = i,
                       re_exercise_id = or_empty exerciseId, re_order_index = pos\<rparr>];
           d' = d\<lparr>routine_exercises := links,
                  routines := map (\<lambda>r. if r_id r = i then r\<lparr>r_updatedAt := t\<rparr> else r)
                     (routines d)\<rparr>
       in post_routine_exercise t nano i exerciseId d = (Inr (loadRoutineFull i d'), d') \<and>
          (i \<in> set (map r_id (routines d)) \<longrightarrow> updated_at d' i = Some t) \<and>
          (\<forall>r. find (\<lambda>r. r_id r = i) (routines d) = Some r \<longrightarrow>
             (\<exists>v. fst (post_routine_exercise t nano i exerciseId d) = Inr (Some v) \<and>
                fv_id v = i \<and> fv_name v = r_name r \<and> fv_createdAt v = r_createdAt r \<and>
                fv_updatedAt v = t \<and>
                sorted (map (\<lambda>x. (rv_order_index x, rv_id x)) (fv_exercises v)) \<and>
                (\<forall>x. x \<in> set (fv_exercises v) \<longleftrightarrow>
                   (\<exists>l\<in>set links. \<exists>e\<in>set (exercises d).
                      re_routine_id l = i \<and> ex_id e = re_exercise_id l \<and>
                      x = full_entry (routine_sets d) l e)) \<and>
                length (fv_exercises v) =
                  length (filter (\<lambda>(l, e). ex_id e = re_exercise_id l \<and> re_routine_id l = i)
                    (List.product links (exercises d)))))"
    unfolding Let_def
  proof (intro conjI impI allI)
    show "post_routine_exercise t nano i exerciseId d = (Inr (loadRoutineFull i ?d'), ?d')"
      by (rule run)
  next
    assume "i \<in> set (map r_id (routines d))"
    then show "updated_at ?d' i = Some t" by (rule upd)
  next
    fix r assume "find (\<lambda>r. r_id r = i) (routines d) = Some r"
    then show "\<exists>v. fst (post_routine_exercise t nano i exerciseId d) = Inr (Some v) \<and>
                fv_id v = i \<and> fv_name v = r_name r \<and> fv_createdAt v = r_createdAt r \<and>
                fv_updatedAt v = t \<and>
                sorted (map (\<lambda>x. (rv_order_index x, rv_id x)) (fv_exercises v)) \<and>
                (\<forall>x. x \<in> set (fv_exercises v) \<longleftrightarrow>
                   (\<exists>l\<in>set ?links. \<exists>e\<in>set (exercises d).
                      re_routine_id l = i \<and> ex_id e = re_exercise_id l \<and>
                      x = full_entry (routine_sets d) l e)) \<and>
                length (fv_exercises v) =
                  length (filter (\<lambda>(l, e). ex_id e = re_exercise_id l \<and> re_routine_id l = i)
                    (List.product ?links (exercises d)))"
      by (rule full)
  qed
qed

theorem add_exercise_next_position_witness:
  "post_routine_exercise 20 ''new'' ''R1'' None routines_db =
     (Inl (ValidationError ''exerciseId required''), routines_db) \<and>
   map re_order_index (filter (\<lambda>l. re_routine_id l = ''R1'') (routine_exercises routines_db))
     = [1, 3] \<and>
   map re_order_index (filter (\<lambda>l. re_routine_id l = ''R1'')
     (routine_exercises (snd (post_routine_exercise 20 ''new'' ''R1'' (Some ''e1'') routines_db))))
     = [1, 3, 4] \<and>
   updated_at (snd (post_routine_exercise 20 ''new'' ''R1'' (Some ''e1'') routines_db)) ''R1''
     = Some 20 \<and>
   map re_order_index (filter (\<lambda>l. re_routine_id l = ''R3'')
     (routine_exercises (snd (post_routine_exercise 20 ''new'' ''R3'' (Some ''e1'') routines_db))))
     = [1] \<and>
   fst (post_routine_exercise 20 ''new'' ''R1'' (Some ''e1'') routines_db) =
     Inr (Some \<lparr>fv_id = ''R1'', fv_name = ''Push'', fv_createdAt = 5, fv_updatedAt = 20,
       fv_exercises =
         [\<lparr>rv_id = ''x1'', rv_order_index = 1,
           rv_exercise = \<lparr>ev_id = ''e1'', ev_name = ''Press'', ev_image = None,
             ev_bodyPart = Some ''Chest'', ev_primaryMuscles = None,
             ev_secondaryMuscles = None, ev_equipment = None\<rparr>,
           rv_sets = [\<lparr>sv_id = ''s1'', sv_reps = Some 10, sv_peso = Some 40\<rparr>]\<rparr>,
          \<lparr>rv_id = ''x3'', rv_order_index = 3,
           rv_exercise = \<lparr>ev_id = ''e2'', ev_name = ''Curl'', ev_image = None,
             ev_bodyPart = Some ''Arms'', ev_primaryMuscles = None,
             ev_secondaryMuscles = None, ev_equipment = None\<rparr>,
           rv_sets = []\<rparr>,
          \<lparr>rv_id = ''rex_new'', rv_order_index = 4,
           rv_exercise = \<lparr>ev_id = ''e1'', ev_name = ''Press'', ev_image = None,
             ev_bodyPart = Some ''Chest'', ev_primaryMuscles = None,
             ev_secondaryMuscles = None, ev_equipment = None\<rparr>,
           rv_sets = []\<rparr>]\<rparr>)"
proof -
  have h: "truthy (Some ''e1'') \<and>
      ''rex_'' @ ''new'' \<notin> set (map re_id (routine_exercises routines_db))"
    by (simp add: routines_db_def empty_db_def)
  have r1: "''R1'' \<in> set (map r_id (routines routines_db))"
    by (simp add: routines_db_def empty_db_def)
  have a: "post_routine_exercise 20 ''new'' ''R1'' None routines_db =
     (Inl (ValidationError ''exerciseId required''), routines_db)"
    using add_exercise_next_position[where exerciseId=None and t=20 and nano="''new''" and i="''R1''" and d=routines_db] by simp
  note thm1 = add_exercise_next_position[where exerciseId="Some ''e1''" and t=20
      and nano="''new''" and i="''R1''" and d=routines_db, THEN conjunct2, rule_format, OF h,
      unfolded Let_def]
  note thm3 = add_exercise_next_position[where exerciseId="Some ''e1''" and t=20
      and nano="''new''" and i="''R3''" and d=routines_db, THEN conjunct2, rule_format, OF h,
      unfolded Let_def]
  have b: "map re_order_index (filter (\<lambda>l. re_routine_id l = ''R1'')
     (routine_exercises (snd (post_routine_exercise 20 ''new'' ''R1'' (Some ''e1'') routines_db))))
     = [1, 3, 4]"
    unfolding thm1[THEN conjunct1] by (simp add: routines_db_def empty_db_def)
  have b': "updated_at (snd (post_routine_exercise 20 ''new'' ''R1'' (Some ''e1'') routines_db)) ''R1''
     = Some 20"
    unfolding thm1[THEN conjunct1] using thm1[THEN conjunct2, THEN conjunct1] r1 by simp
  have c: "map re_order_index (filter (\<lambda>l. re_routine_id l = ''R3'')
     (routine_exercises (snd (post_routine_exercise 20 ''new'' ''R3'' (Some ''e1'') routines_db))))
     = [1]"
    unfolding thm3[THEN conjunct1] by (simp add: routines_db_def empty_db_def)
  have d: "map re_order_index (filter (\<lambda>l. re_routine_id l = ''R1'')
      (routine_exercises routines_db)) = [1, 3]"
    by (simp add: routines_db_def empty_db_def)
  have e: "fst (post_routine_exercise 20 ''new'' ''R1'' (Some ''e1'') routines_db) =
     Inr (Some \<lparr>fv_id = ''R1'', fv_name = ''Push'', fv_createdAt = 5, fv_updatedAt = 20,
       fv_exercises =
         [\<lparr>rv_id = ''x1'', rv_order_index = 1,
           rv_exercise = \<lparr>ev_id = ''e1'', ev_name = ''Press'', ev_image = None,
             ev_bodyPart = Some ''Chest'', ev_primaryMuscles = None,
             ev_secondaryMuscles = None, ev_equipment = None\<rparr>,
           rv_sets = [\<lparr>sv_id = ''s1'', sv_reps = Some 10, sv_peso = Some 40\<rparr>]\<rparr>,
          \<lparr>rv_id = ''x3'', rv_order_index = 3,
           rv_exercise = \<lparr>ev_id = ''e2'', ev_name = ''Curl'', ev_image = None,
             ev_bodyPart = Some ''Arms'', ev_primaryMuscles = None,
             ev_secondaryMuscles = None, ev_equipment = None\<rparr>,
           rv_sets = []\<rparr>,
          \<lparr>rv_id = ''rex_new'', rv_order_index = 4,
           rv_exercise = \<lparr>ev_id = ''e1'', ev_name = ''Press'', ev_image = None,
             ev_bodyPart = Some ''Chest'', ev_primaryMuscles = None,
             ev_secondaryMuscles = None, ev_equipment = None\<rparr>,
           rv_sets = []\<rparr>]\<rparr>)"
    unfolding thm1[THEN conjunct1]
    by (simp add: loadRoutineFull_def exs_def setsByRex_def routines_db_def empty_db_def)
  from a b b' c d e show ?thesis by blast
qed

lemma loadRoutineFull_sets:
  assumes "loadRoutineFull j d = Some v" and "e \<in> set (fv_exercises v)"
  shows "rv_sets e =
     map (\<lambda>s. \<lparr>sv_id = rs_id s, sv_reps = rs_reps s, sv_peso = rs_peso s\<rparr>)
       (filter (\<lambda>s. rs_routine_exercise_id s = rv_id e) (routine_sets d))"
  using assms by (auto simp: loadRoutineFull_def setsByRex_def split: option.splits)

text \<open>
  C4 (amended). Removing exercise link \<open>x\<close> through routine \<open>i\<close> never fails and passes
  through three stores in this order: first every set owned by \<open>x\<close> is deleted (links and
  routines still as they were), then the link \<open>x\<close> is deleted if it is a link of routine
  \<open>i\<close> (a link of another routine is kept), then the \<open>updatedAt\<close> of routine \<open>i\<close> is set to
  the clock reading. Afterwards no set owned by \<open>x\<close> is stored or returned by any load,
  an existing routine \<open>i\<close> carries the clock reading whether or not a link \<open>x\<close> existed,
  and no other routine's \<open>updatedAt\<close> has changed.
\<close>

theorem remove_exercise_cascade:
  "(let S = filter (\<lambda>s. rs_routine_exercise_id s \<noteq> x) (routine_sets d);
        L = filter (\<lambda>l. \<not> (re_id l = x \<and> re_routine_id l = i)) (routine_exercises d);
        R = map (\<lambda>r. if r_id r = i then r\<lparr>r_updatedAt := t\<rparr> else r) (routines d);
        d3 = d\<lparr>routine_sets := S, routine_exercises := L, routines := R\<rparr>
    in steps (remove_exercise_tx t i x) d =
         [d\<lparr>routine_sets := S\<rparr>, d\<lparr>routine_sets := S, routine_exercises := L\<rparr>, d3] \<and>
       delete_routine_exercise t i x d = (Inr (), d3) \<and>
       (\<forall>s\<in>set S. rs_routine_exercise_id s \<noteq> x) \<and>
       (\<forall>l\<in>set L. \<not> (re_id l = x \<and> re_routine_id l = i)) \<and>
       (\<forall>l\<in>set (routine_exercises d). re_routine_id l \<noteq> i \<longrightarrow> l \<in> set L) \<and>
       (\<forall>j v e. loadRoutineFull j d3 = Some v \<and> e \<in> set (fv_exercises v) \<and> rv_id e = x \<longrightarrow>
          rv_sets e = []) \<and>
       (i \<in> set (map r_id (routines d)) \<longrightarrow> updated_at d3 i = Some t) \<and>
       (\<forall>j. j \<noteq> i \<longrightarrow> updated_at d3 j = updated_at d j))"
proof -
  let ?S = "filter (\<lambda>s. rs_routine_exercise_id s \<noteq> x) (routine_sets d)"
  let ?L = "filter (\<lambda>l. \<not> (re_id l = x \<and> re_routine_id l = i)) (routine_exercises d)"
  let ?R = "map (\<lambda>r. if r_id r = i then r\<lparr>r_updatedAt := t\<rparr> else r) (routines d)"
  let ?d3 = "d\<lparr>routine_sets := ?S, routine_exercises := ?L, routines := ?R\<rparr>"
  have st: "steps (remove_exercise_tx t i x) d =
      [d\<lparr>routine_sets := ?S\<rparr>, d\<lparr>routine_sets := ?S, routine_exercises := ?L\<rparr>, ?d3]"
    by (simp add: remove_exercise_tx_def)
  have run: "delete_routine_exercise t i x d = (Inr (), ?d3)"
    by (simp add: delete_routine_exercise_def remove_exercise_tx_def)
  have upd: "updated_at ?d3 i = Some t" if "i \<in> set (map r_id (routines d))"
    using that by (intro touched_self[where d=d]) simp_all
  have other: "updated_at ?d3 j = updated_at d j" if "j \<noteq> i" for j
    using that by (intro touched_other[where i=i and t=t]) simp_all
  have none: "rv_sets e = []"
    if "loadRoutineFull j ?d3 = Some v \<and> e \<in> set (fv_exercises v) \<and> rv_id e = x" for j v e
  proof -
    from that have "rv_sets e =
        map (\<lambda>s. \<lparr>sv_id = rs_id s, sv_reps = rs_reps s, sv_peso = rs_peso s\<rparr>)
          (filter (\<lambda>s. rs_routine_exercise_id s = x) (routine_sets ?d3))"
      using loadRoutineFull_sets by blast
    then show ?thesis by (simp add: filter_empty_conv)
  qed
  have keep: "\<forall>l\<in>set (routine_exercises d). re_routine_id l \<noteq> i \<longrightarrow> l \<in> set ?L"
    by simp
  show ?thesis
    unfolding Let_def
  proof (intro conjI allI impI)
    show "steps (remove_exercise_tx t i x) d =
      [d\<lparr>routine_sets := ?S\<rparr>, d\<lparr>routine_sets := ?S, routine_exercises := ?L\<rparr>, ?d3]"
      by (rule st)
  next
    show "delete_routine_exercise t i x d = (Inr (), ?d3)" by (rule run)
  next
    show "\<forall>s\<in>set ?S. rs_routine_exercise_id s \<noteq> x" by simp
  next
    show "\<forall>l\<in>set ?L. \<not> (re_id l = x \<and> re_routine_id l = i)" by simp
  next
    show "\<forall>l\<in>set (routine_exercises d). re_routine_id l \<noteq> i \<longrightarrow> l \<in> set ?L"
      by (rule keep)
  next
    fix j v e
    assume "loadRoutineFull j ?d3 = Some v \<and> e \<in> set (fv_exercises v) \<and> rv_id e = x"
    then show "rv_sets e = []" by (rule none)
  next
    assume "i \<in> set (map r_id (routines d))"
    then show "updated_at ?d3 i = Some t" by (rule upd)
  next
    fix j assume "j \<noteq> i"
    then show "updated_at ?d3 j = updated_at d j" by (rule other)
  qed
qed

theorem remove_exercise_cascade_witness:
  "map (\<lambda>d. (map rs_id (routine_sets d), map re_id (routine_exercises d), updated_at d ''R2''))
     (routines_db # steps (remove_exercise_tx 20 ''R2'' ''X'') routines_db) =
     [([''s1'', ''s2'', ''s3''], [''x1'', ''x3'', ''X''], Some 10),
      ([''s1''], [''x1'', ''x3'', ''X''], Some 10),
      ([''s1''], [''x1'', ''x3''], Some 10),
      ([''s1''], [''x1'', ''x3''], Some 20)] \<and>
   map rs_routine_exercise_id
     (routine_sets (snd (delete_routine_exercise 20 ''R2'' ''X'' routines_db))) = [''x1''] \<and>
   map re_id (routine_exercises (snd (delete_routine_exercise 20 ''R2'' ''X'' routines_db)))
     = [''x1'', ''x3''] \<and>
   updated_at (snd (delete_routine_exercise 20 ''R2'' ''X'' routines_db)) ''R2'' = Some 20 \<and>
   ''gone'' \<notin> set (map re_id (routine_exercises routines_db)) \<and>
   updated_at (snd (delete_routine_exercise 20 ''R2'' ''gone'' routines_db)) ''R2'' = Some 20"
proof -
  have r2: "''R2'' \<in> set (map r_id (routines routines_db))"
    by (simp add: routines_db_def empty_db_def)
  note thmX = remove_exercise_cascade[where x="''X''" and d=routines_db and i="''R2''" and t=20,
      unfolded Let_def]
  note thmG = remove_exercise_cascade[where x="''gone''" and d=routines_db and i="''R2''" and t=20,
      unfolded Let_def]
  have s: "map (\<lambda>d. (map rs_id (routine_sets d), map re_id (routine_exercises d), updated_at d ''R2''))
     (routines_db # steps (remove_exercise_tx 20 ''R2'' ''X'') routines_db) =
     [([''s1'', ''s2'', ''s3''], [''x1'', ''x3'', ''X''], Some 10),
      ([''s1''], [''x1'', ''x3'', ''X''], Some 10),
      ([''s1''], [''x1'', ''x3''], Some 10),
      ([''s1''], [''x1'', ''x3''], Some 20)]"
    unfolding thmX[THEN conjunct1]
    by (simp add: updated_at_def routines_db_def empty_db_def)
  have a: "updated_at (snd (delete_routine_exercise 20 ''R2'' ''X'' routines_db)) ''R2'' = Some 20"
    using thmX r2 by simp
  have b: "updated_at (snd (delete_routine_exercise 20 ''R2'' ''gone'' routines_db)) ''R2'' = Some 20"
    using thmG r2 by simp
  have c: "map rs_routine_exercise_id
     (routine_sets (snd (delete_routine_exercise 20 ''R2'' ''X'' routines_db))) = [''x1''] \<and>
   map re_id (routine_exercises (snd (delete_routine_exercise 20 ''R2'' ''X'' routines_db)))
     = [''x1'', ''x3''] \<and>
   ''gone'' \<notin> set (map re_id (routine_exercises routines_db))"
    unfolding thmX[THEN conjunct2, THEN conjunct1]
    by (simp add: routines_db_def empty_db_def)
  from s a b c show ?thesis by blast
qed

text \<open>
  C4 as stated fails for a link of another routine: X is a link of routine R2, the
  removal is called through the existing routine R3, and the link X is still stored.
\<close>

theorem remove_exercise_foreign_link_counterexample:
  "map (\<lambda>l. (re_id l, re_routine_id l)) (routine_exercises routines_db) =
     [(''x1'', ''R1''), (''x3'', ''R1''), (''X'', ''R2'')] \<and>
   ''R3'' \<in> set (map r_id (routines routines_db)) \<and>
   fst (delete_routine_exercise 30 ''R3'' ''X'' routines_db) = Inr () \<and>
   map (\<lambda>l. (re_id l, re_routine_id l))
     (routine_exercises (snd (delete_routine_exercise 30 ''R3'' ''X'' routines_db))) =
     [(''x1'', ''R1''), (''x3'', ''R1''), (''X'', ''R2'')]"
  by (simp add: delete_routine_exercise_def remove_exercise_tx_def routines_db_def empty_db_def)

text \<open>
  C9. When link \<open>x\<close> belongs to routine \<open>r2\<close> and the removal is called through another
  routine \<open>r1\<close>, every set of \<open>x\<close> is deleted (the deletion is keyed by the link id
  alone), the link \<open>x\<close> stays stored (its deletion also asks for routine \<open>r1\<close>), an
  existing routine \<open>r1\<close> gets the clock reading as \<open>updatedAt\<close>, and the \<open>updatedAt\<close> of
  \<open>r2\<close> is what it was.
\<close>

theorem remove_exercise_cross_routine:
  assumes "x \<in> set (routine_exercises d)" and "re_routine_id x = r2" and "r1 \<noteq> r2"
  shows "\<exists>d'. delete_routine_exercise t r1 (re_id x) d = (Inr (), d') \<and>
      routine_sets d' = filter (\<lambda>s. rs_routine_exercise_id s \<noteq> re_id x) (routine_sets d) \<and>
      setsByRex d' (re_id x) = [] \<and>
      x \<in> set (routine_exercises d') \<and>
      (r1 \<in> set (map r_id (routines d)) \<longrightarrow> updated_at d' r1 = Some t) \<and>
      updated_at d' r2 = updated_at d r2"
proof -
  let ?d' = "d\<lparr>routine_sets := filter (\<lambda>s. rs_routine_exercise_id s \<noteq> re_id x) (routine_sets d),
      routine_exercises :=
        filter (\<lambda>l. \<not> (re_id l = re_id x \<and> re_routine_id l = r1)) (routine_exercises d),
      routines := map (\<lambda>r. if r_id r = r1 then r\<lparr>r_updatedAt := t\<rparr> else r) (routines d)\<rparr>"
  have run: "delete_routine_exercise t r1 (re_id x) d = (Inr (), ?d')"
    by (simp add: delete_routine_exercise_def remove_exercise_tx_def)
  have keep: "x \<in> set (routine_exercises ?d')"
    using assms by simp
  have other: "updated_at ?d' r2 = updated_at d r2"
    using assms(3) by (intro touched_other[where i=r1 and t=t]) simp_all
  have upd: "updated_at ?d' r1 = Some t" if "r1 \<in> set (map r_id (routines d))"
    using that by (intro touched_self[where d=d]) simp_all
  have none: "setsByRex ?d' (re_id x) = []"
    by (simp add: setsByRex_def filter_empty_conv)
  show ?thesis
    apply (rule exI[of _ ?d'])
    using run keep other upd none by simp
qed

theorem remove_exercise_cross_routine_witness:
  "map rs_routine_exercise_id (routine_sets routines_db) = [''x1'', ''X'', ''X''] \<and>
   map rs_routine_exercise_id
     (routine_sets (snd (delete_routine_exercise 20 ''R1'' ''X'' routines_db))) = [''x1''] \<and>
   map re_id (routine_exercises (snd (delete_routine_exercise 20 ''R1'' ''X'' routines_db)))
     = [''x1'', ''x3'', ''X''] \<and>
   updated_at (snd (delete_routine_exercise 20 ''R1'' ''X'' routines_db)) ''R1'' = Some 20 \<and>
   updated_at (snd (delete_routine_exercise 20 ''R1'' ''X'' routines_db)) ''R2'' = Some 10"
proof -
  let ?x = "\<lparr>re_id = ''X'', re_routine_id = ''R2'', re_exercise_id = ''e2'', re_order_index = 1\<rparr>"
  have h: "?x \<in> set (routine_exercises routines_db)" "re_routine_id ?x = ''R2''" "''R1'' \<noteq> ''R2''"
    by (simp_all add: routines_db_def empty_db_def)
  have r1: "''R1'' \<in> set (map r_id (routines routines_db))"
    and r2: "updated_at routines_db ''R2'' = Some 10"
    by (simp_all add: routines_db_def empty_db_def updated_at_def)
  from remove_exercise_cross_routine[OF h, where t=20] r1 r2
  have a: "updated_at (snd (delete_routine_exercise 20 ''R1'' ''X'' routines_db)) ''R1'' = Some 20 \<and>
   updated_at (snd (delete_routine_exercise 20 ''R1'' ''X'' routines_db)) ''R2'' = Some 10"
    by auto
  have c: "map rs_routine_exercise_id (routine_sets routines_db) = [''x1'', ''X'', ''X''] \<and>
   map rs_routine_exercise_id
     (routine_sets (snd (delete_routine_exercise 20 ''R1'' ''X'' routines_db))) = [''x1''] \<and>
   map re_id (routine_exercises (snd (delete_routine_exercise 20 ''R1'' ''X'' routines_db)))
     = [''x1'', ''x3'', ''X'']"
    by (simp add: delete_routine_exercise_def remove_exercise_tx_def routines_db_def empty_db_def)
  from a c show ?thesis by blast
qed

lemma transaction_append:
  "transaction (a @ b) d = (case transaction a d of None \<Rightarrow> None | Some d' \<Rightarrow> transaction b d')"
  by (induction a arbitrary: d) (auto split: option.splits)

lemma set_updates_append: "set_updates (a @ b) = set_updates a @ set_updates b"
  by (simp add: set_updates_def)

lemma last_patch_snoc:
  "last_patch k (ps @ [p]) =
     (if k \<noteq> [] \<and> sp_id p = Some k then Some p else last_patch k ps)"
  by (simp add: last_patch_def)

lemma apply_patches_id: "rs_id (apply_patches ps s) = rs_id s"
  by (simp add: apply_patches_def split: option.splits)

lemma apply_patches_snoc_hit:
  "k \<noteq> [] \<Longrightarrow> sp_id p = Some k \<Longrightarrow>
     (if rs_id (apply_patches ps s) = k
      then (apply_patches ps s)\<lparr>rs_reps := sp_reps p, rs_peso := sp_peso p\<rparr>
      else apply_patches ps s) = apply_patches (ps @ [p]) s"
  by (simp add: apply_patches_def last_patch_snoc split: option.splits)

lemma apply_patches_snoc_skip:
  "\<not> truthy (sp_id p) \<Longrightarrow> apply_patches (ps @ [p]) s = apply_patches ps s"
  by (cases "sp_id p") (auto simp: apply_patches_def last_patch_snoc)

lemma set_updates_run:
  "transaction (set_updates ps) d =
     Some (d\<lparr>routine_sets := map (apply_patches ps) (routine_sets d)\<rparr>)"
proof (induction ps rule: rev_induct)
  case Nil
  have "map (apply_patches []) (routine_sets d) = routine_sets d"
    by (simp add: apply_patches_def last_patch_def map_idI)
  then show ?case by (simp add: set_updates_def)
next
  case (snoc p ps)
  show ?case
  proof (cases "truthy (sp_id p)")
    case True
    then obtain k where k: "sp_id p = Some k" "k \<noteq> []"
      by (cases "sp_id p") auto
    have one: "set_updates [p] = [UpdateRoutineSet (sp_reps p) (sp_peso p) k]"
      using k by (simp add: set_updates_def)
    show ?thesis
      unfolding set_updates_append transaction_append snoc.IH one
      using k by (simp add: comp_def apply_patches_snoc_hit)
  next
    case False
    then have "set_updates [p] = []" by (simp add: set_updates_def)
    then show ?thesis
      unfolding set_updates_append transaction_append snoc.IH
      using False by (simp add: apply_patches_snoc_skip)
  qed
qed

lemma update_sets_tx_flat:
  "update_sets_tx t i list = set_updates (provided_sets list) @ [UpdateRoutineUpdatedAt t i]"
proof -
  have "concat (map (\<lambda>ex. case xp_sets ex of None \<Rightarrow> [] | Some ss \<Rightarrow> set_updates ss) list)
      = set_updates (provided_sets list)"
  proof (induction list)
    case Nil
    then show ?case by (simp add: provided_sets_def set_updates_def)
  next
    case (Cons ex list)
    have "(case xp_sets ex of None \<Rightarrow> [] | Some ss \<Rightarrow> set_updates ss)
        = set_updates (or_nil (xp_sets ex))"
      by (cases "xp_sets ex") (simp_all add: set_updates_def)
    moreover have "provided_sets (ex # list) = or_nil (xp_sets ex) @ provided_sets list"
      by (simp add: provided_sets_def)
    ultimately show ?case using Cons.IH by (simp add: set_updates_append)
  qed
  then show ?thesis by (simp add: update_sets_tx_def)
qed

lemma set_updates_no_touch: "filter writes_updatedAt (set_updates ps) = []"
  by (induction ps) (auto simp: set_updates_def)

lemma update_sets_tx_run:
  "transaction (update_sets_tx t i list) d =
     Some (d\<lparr>routine_sets := map (apply_patches (provided_sets list)) (routine_sets d),
             routines := map (\<lambda>r. if r_id r = i then r\<lparr>r_updatedAt := t\<rparr> else r) (routines d)\<rparr>)"
  unfolding update_sets_tx_flat transaction_append set_updates_run by simp

lemma apply_patches_unknown:
  assumes "Some (rs_id s) \<notin> set (map sp_id ps)"
  shows "apply_patches ps s = s"
proof -
  have "find (\<lambda>p. sp_id p = Some (rs_id s)) (rev ps) = None"
    using assms by (force simp: find_None_iff image_iff)
  then show ?thesis by (simp add: apply_patches_def last_patch_def)
qed

lemma renamed_ids:
  "map r_id (map (\<lambda>r. if r_id r = i then r\<lparr>r_name := n, r_updatedAt := t\<rparr> else r) rs) = map r_id rs"
  by (induction rs) auto

lemma renamed_other:
  assumes "j \<noteq> i"
    and "routines d' = map (\<lambda>r. if r_id r = i then r\<lparr>r_name := n, r_updatedAt := t\<rparr> else r) (routines d)"
  shows "updated_at d' j = updated_at d j"
  unfolding updated_at_def assms(2) updated_at_renamed using assms(1) by simp

lemma renamed_self:
  assumes "i \<in> set (map r_id (routines d))"
    and "routines d' = map (\<lambda>r. if r_id r = i then r\<lparr>r_name := n, r_updatedAt := t\<rparr> else r) (routines d)"
  shows "updated_at d' i = Some t"
proof -
  from assms(1) obtain r where "find (\<lambda>r. r_id r = i) (routines d) = Some r"
    using find_id_exists[of i "routines d"] by blast
  then show ?thesis
    unfolding updated_at_def assms(2) updated_at_renamed by simp
qed

text \<open>
  C6. A PUT whose body has an \<open>exercises\<close> array never fails. Every stored set takes the
  \<open>reps\<close> and \<open>peso\<close> of the last provided entry that carries its identity and is
  unchanged when no entry does; no row is added or removed, so entries with an unknown,
  absent or empty identity change nothing. The transaction writes \<open>updatedAt\<close> with
  exactly one statement whatever the entries are (with no name in the body it is the only
  change to the routines), an existing routine then carries the clock reading taken in
  the transaction, and no other routine's \<open>updatedAt\<close> changes.
\<close>

theorem update_sets_by_identity:
  "rp_exercises body = Some list \<longrightarrow>
     (\<exists>d'. put_routine t1 t2 i body d = (Inr (loadRoutineFull i d'), d') \<and>
        routine_sets d' = map (apply_patches (provided_sets list)) (routine_sets d) \<and>
        map rs_id (routine_sets d') = map rs_id (routine_sets d) \<and>
        (\<forall>s\<in>set (routine_sets d).
            Some (rs_id s) \<notin> set (map sp_id (provided_sets list)) \<longrightarrow>
            apply_patches (provided_sets list) s = s) \<and>
        length (filter writes_updatedAt (update_sets_tx t2 i list)) = 1 \<and>
        (\<not> truthy (rp_name body) \<longrightarrow>
            routines d' = map (\<lambda>r. if r_id r = i then r\<lparr>r_updatedAt := t2\<rparr> else r) (routines d)) \<and>
        (i \<in> set (map r_id (routines d)) \<longrightarrow> updated_at d' i = Some t2) \<and>
        (\<forall>j. j \<noteq> i \<longrightarrow> updated_at d' j = updated_at d j))"
proof
  assume ex: "rp_exercises body = Some list"
  let ?d1 = "if truthy (rp_name body)
     then d\<lparr>routines := map (\<lambda>r. if r_id r = i
            then r\<lparr>r_name := or_empty (rp_name body), r_updatedAt := t1\<rparr> else r) (routines d)\<rparr>
     else d"
  let ?d' = "?d1\<lparr>routine_sets := map (apply_patches (provided_sets list)) (routine_sets ?d1),
             routines := map (\<lambda>r. if r_id r = i then r\<lparr>r_updatedAt := t2\<rparr> else r) (routines ?d1)\<rparr>"
  have run: "put_routine t1 t2 i body d = (Inr (loadRoutineFull i ?d'), ?d')"
    using ex by (simp add: put_routine_def update_sets_tx_run)
  have sets: "routine_sets ?d' = map (apply_patches (provided_sets list)) (routine_sets d)"
    by simp
  have ids: "map rs_id (routine_sets ?d') = map rs_id (routine_sets d)"
    unfolding sets by (simp add: apply_patches_id)
  have once: "length (filter writes_updatedAt (update_sets_tx t2 i list)) = 1"
    by (simp add: update_sets_tx_flat set_updates_no_touch)
  have only: "routines ?d' = map (\<lambda>r. if r_id r = i then r\<lparr>r_updatedAt := t2\<rparr> else r) (routines d)"
    if "\<not> truthy (rp_name body)"
    using that by simp
  have ids1: "map r_id (routines ?d1) = map r_id (routines d)"
    by (simp add: renamed_ids)
  have upd: "updated_at ?d' i = Some t2" if "i \<in> set (map r_id (routines d))"
    using that ids1 by (intro touched_self[where d="?d1"]) simp_all
  have other: "updated_at ?d' j = updated_at d j" if "j \<noteq> i" for j
  proof -
    have "updated_at ?d' j = updated_at ?d1 j"
      using that by (intro touched_other[where i=i and t=t2]) simp_all
    also have "updated_at ?d1 j = updated_at d j"
    proof (cases "truthy (rp_name body)")
      case True
      with that show ?thesis
        by (intro renamed_other[where i=i and t=t1 and n="or_empty (rp_name body)"]) simp_all
    next
      case False
      then show ?thesis by simp
    qed
    finally show ?thesis .
  qed
  show "\<exists>d'. put_routine t1 t2 i body d = (Inr (loadRoutineFull i d'), d') \<and>
        routine_sets d' = map (apply_patches (provided_sets list)) (routine_sets d) \<and>
        map rs_id (routine_sets d') = map rs_id (routine_sets d) \<and>
        (\<forall>s\<in>set (routine_sets d).
            Some (rs_id s) \<notin> set (map sp_id (provided_sets list)) \<longrightarrow>
            apply_patches (provided_sets list) s = s) \<and>
        length (filter writes_updatedAt (update_sets_tx t2 i list)) = 1 \<and>
        (\<not> truthy (rp_name body) \<longrightarrow>
            routines d' = map (\<lambda>r. if r_id r = i then r\<lparr>r_updatedAt := t2\<rparr> else r) (routines d)) \<and>
        (i \<in> set (map r_id (routines d)) \<longrightarrow> updated_at d' i = Some t2) \<and>
        (\<forall>j. j \<noteq> i \<longrightarrow> updated_at d' j = updated_at d j)"
    apply (rule exI[of _ ?d'])
    using run sets ids once only upd other apply_patches_unknown by blast
qed

theorem update_sets_by_identity_witness:
  "map (\<lambda>s. (rs_id s, rs_reps s, rs_peso s)) (routine_sets routines_db) =
     [(''s1'', Some 10, Some 40), (''s2'', Some 8, Some 20), (''s3'', None, None)] \<and>
   map (\<lambda>s. (rs_id s, rs_reps s, rs_peso s))
     (routine_sets (snd (put_routine 25 30 ''R1'' edit_body routines_db))) =
     [(''s1'', Some 12, Some 45), (''s2'', Some 8, Some 20), (''s3'', None, None)] \<and>
   updated_at (snd (put_routine 25 30 ''R1'' edit_body routines_db)) ''R1'' = Some 30 \<and>
   routine_sets (snd (put_routine 25 30 ''R1''
       \<lparr>rp_name = None, rp_exercises = Some []\<rparr> routines_db)) = routine_sets routines_db \<and>
   updated_at (snd (put_routine 25 30 ''R1''
       \<lparr>rp_name = None, rp_exercises = Some []\<rparr> routines_db)) ''R1'' = Some 30"
proof -
  let ?list = "[\<lparr>xp_id = Some ''x1'', xp_sets = Some
        [\<lparr>sp_id = Some ''s1'', sp_reps = Some 12, sp_peso = Some 45\<rparr>,
         \<lparr>sp_id = Some ''unknown'', sp_reps = Some 1, sp_peso = Some 1\<rparr>,
         \<lparr>sp_id = None, sp_reps = Some 2, sp_peso = Some 2\<rparr>]\<rparr>,
      \<lparr>xp_id = Some ''x3'', xp_sets = None\<rparr>]"
  have h: "rp_exercises edit_body = Some ?list"
    by (simp add: edit_body_def)
  have r1: "''R1'' \<in> set (map r_id (routines routines_db))"
    by (simp add: routines_db_def empty_db_def)
  from update_sets_by_identity[where body=edit_body and list="?list" and d=routines_db
      and i="''R1''" and ?t1.0=25 and ?t2.0=30] h r1
  have a: "routine_sets (snd (put_routine 25 30 ''R1'' edit_body routines_db)) =
      map (apply_patches (provided_sets ?list)) (routine_sets routines_db) \<and>
      updated_at (snd (put_routine 25 30 ''R1'' edit_body routines_db)) ''R1'' = Some 30"
    by auto
  have b: "map (\<lambda>s. (rs_id s, rs_reps s, rs_peso s))
      (map (apply_patches (provided_sets ?list)) (routine_sets routines_db)) =
     [(''s1'', Some 12, Some 45), (''s2'', Some 8, Some 20), (''s3'', None, None)]"
    by (simp add: provided_sets_def apply_patches_def last_patch_def routines_db_def empty_db_def)
  have h0: "rp_exercises \<lparr>rp_name = None, rp_exercises = Some []\<rparr> = Some []"
    by simp
  from update_sets_by_identity[where body="\<lparr>rp_name = None, rp_exercises = Some []\<rparr>"
      and list="[]" and d=routines_db and i="''R1''" and ?t1.0=25 and ?t2.0=30] h0 r1
  have c: "routine_sets (snd (put_routine 25 30 ''R1''
       \<lparr>rp_name = None, rp_exercises = Some []\<rparr> routines_db)) =
      map (apply_patches (provided_sets [])) (routine_sets routines_db) \<and>
     updated_at (snd (put_routine 25 30 ''R1''
       \<lparr>rp_name = None, rp_exercises = Some []\<rparr> routines_db)) ''R1'' = Some 30"
    by auto
  have e: "map (apply_patches (provided_sets [])) (routine_sets routines_db) = routine_sets routines_db"
    by (simp add: provided_sets_def apply_patches_def last_patch_def map_idI)
  have f: "map (\<lambda>s. (rs_id s, rs_reps s, rs_peso s)) (routine_sets routines_db) =
     [(''s1'', Some 10, Some 40), (''s2'', Some 8, Some 20), (''s3'', None, None)]"
    by (simp add: routines_db_def empty_db_def)
  from a b c e f show ?thesis by simp
qed

section \<open>Properties of the exercise catalog\<close>

lemma post_exercise_validation:
  "post_exercise nano p d =
     (if \<not> truthy (xf_name p) then (Inl (ValidationError ''name required''), d)
      else if ''cus_'' @ nano \<in> set (map ex_id (exercises d)) then (Inl StorageError, d)
      else
        let ex = \<lparr>ex_id = ''cus_'' @ nano, ex_name = trim (or_empty (xf_name p)),
                  ex_image = Some (or_empty (xf_image p)),
                  ex_bodyPart = Some (or_empty (xf_bodyPart p)),
                  ex_primaryMuscles = Some (or_empty (xf_primaryMuscles p)),
                  ex_secondaryMuscles = Some (or_empty (xf_secondaryMuscles p)),
                  ex_equipment = Some (or_empty (xf_equipment p)),
                  ex_isCustom = 1\<rparr>
        in (Inr ex, d\<lparr>exercises := exercises d @ [ex]\<rparr>))"
  by (simp add: post_exercise_def Let_def)

text \<open>
  C7 at the name \<open>"  "\<close> (two spaces): the name is blank after trimming, the request is
  not rejected, and an exercise with the empty name is stored. The omitted fields are
  stored as empty strings and the exercise is marked custom.
\<close>

theorem post_exercise_blank_name_accepted:
  "blank_after_trim (Some ''  '') \<and>
   post_exercise ''a1''
     \<lparr>xf_name = Some ''  '', xf_image = None, xf_bodyPart = None, xf_primaryMuscles = None,
      xf_secondaryMuscles = None, xf_equipment = None\<rparr> empty_db =
   (Inr \<lparr>ex_id = ''cus_a1'', ex_name = '''', ex_image = Some '''', ex_bodyPart = Some '''',
         ex_primaryMuscles = Some '''', ex_secondaryMuscles = Some '''',
         ex_equipment = Some '''', ex_isCustom = 1\<rparr>,
    empty_db\<lparr>exercises :=
      [\<lparr>ex_id = ''cus_a1'', ex_name = '''', ex_image = Some '''', ex_bodyPart = Some '''',
         ex_primaryMuscles = Some '''', ex_secondaryMuscles = Some '''',
         ex_equipment = Some '''', ex_isCustom = 1\<rparr>]\<rparr>)"
  by (simp add: blank_after_trim_def trim_def trimStart_def trimEnd_def strip_start.simps
      space_at_start_def white_space_def post_exercise_def empty_db_def Let_def)

section \<open>Properties of updatedAt\<close>

lemma outcome_simps:
  "snd (outcome x) = snd x"
  "fst (outcome x) = (case fst x of Inl e \<Rightarrow> False | Inr v \<Rightarrow> True)"
  by (simp_all add: outcome_def)

lemma touched_ids:
  "map r_id (map (\<lambda>r. if r_id r = i then r\<lparr>r_updatedAt := t\<rparr> else r) rs) = map r_id rs"
  by (induction rs) auto

lemma put_routine_routines:
  "routines (snd (put_routine t1 t2 i body d)) =
     (let rs1 = (if truthy (rp_name body)
                 then map (\<lambda>r. if r_id r = i
                        then r\<lparr>r_name := or_empty (rp_name body), r_updatedAt := t1\<rparr> else r)
                      (routines d)
                 else routines d)
      in case rp_exercises body of
           None \<Rightarrow> rs1
         | Some list \<Rightarrow> map (\<lambda>r. if r_id r = i then r\<lparr>r_updatedAt := t2\<rparr> else r) rs1)"
  by (simp add: put_routine_def update_sets_tx_run Let_def split: option.splits)

lemma delete_routine_exercise_routines:
  "routines (snd (delete_routine_exercise t i x d)) =
     map (\<lambda>r. if r_id r = i then r\<lparr>r_updatedAt := t\<rparr> else r) (routines d)"
  by (simp add: delete_routine_exercise_def remove_exercise_tx_def)

lemma post_routine_exercise_routines:
  "truthy e \<Longrightarrow> fst (outcome (post_routine_exercise t nano i e d)) \<Longrightarrow>
     routines (snd (post_routine_exercise t nano i e d)) =
       map (\<lambda>r. if r_id r = i then r\<lparr>r_updatedAt := t\<rparr> else r) (routines d)"
  by (auto simp: post_routine_exercise_def outcome_def Let_def split: if_splits)

lemma post_routine_set_routines:
  "fst (outcome (post_routine_set t nano i x reps peso d)) \<Longrightarrow>
     routines (snd (post_routine_set t nano i x reps peso d)) =
       map (\<lambda>r. if r_id r = i then r\<lparr>r_updatedAt := t\<rparr> else r) (routines d)"
  by (auto simp: post_routine_set_def outcome_def Let_def split: if_splits)

lemma delete_routine_set_routines:
  "routines (snd (delete_routine_set t i x s d)) =
     map (\<lambda>r. if r_id r = i then r\<lparr>r_updatedAt := t\<rparr> else r) (routines d)"
  by (simp add: delete_routine_set_def)

text \<open>One mutation that goes through leaves its clock reading on the routine.\<close>

lemma mutation_step:
  assumes touch: "touch_of r = Some (i, t)" and ok: "fst (handle r d)"
    and ex: "i \<in> set (map r_id (routines d))"
  shows "updated_at (snd (handle r d)) i = Some t"
    and "i \<in> set (map r_id (routines (snd (handle r d))))"
proof -
  have "updated_at (snd (handle r d)) i = Some t \<and>
      map r_id (routines (snd (handle r d))) = map r_id (routines d)"
  proof (cases r)
    case (PutRoutine t1 t2 j body)
    show ?thesis
    proof (cases "rp_exercises body")
      case None
      with touch PutRoutine have nm: "truthy (rp_name body)" and j: "j = i" and t: "t1 = t"
        by (auto split: if_splits)
      have rs: "routines (snd (handle r d)) =
          map (\<lambda>r. if r_id r = i
                then r\<lparr>r_name := or_empty (rp_name body), r_updatedAt := t\<rparr> else r) (routines d)"
        using PutRoutine None nm j t by (simp add: outcome_simps put_routine_routines)
      show ?thesis
        using renamed_self[OF ex rs] rs by (simp add: renamed_ids)
    next
      case (Some list)
      with touch PutRoutine have j: "j = i" and t: "t2 = t" by auto
      let ?d1 = "d\<lparr>routines := (if truthy (rp_name body)
                 then map (\<lambda>r. if r_id r = i
                        then r\<lparr>r_name := or_empty (rp_name body), r_updatedAt := t1\<rparr> else r)
                      (routines d)
                 else routines d)\<rparr>"
      have rs: "routines (snd (handle r d)) =
          map (\<lambda>r. if r_id r = i then r\<lparr>r_updatedAt := t\<rparr> else r) (routines ?d1)"
        using PutRoutine Some j t by (simp add: outcome_simps put_routine_routines)
      have ids1: "map r_id (routines ?d1) = map r_id (routines d)"
        by (simp add: renamed_ids)
      with ex have ex1: "i \<in> set (map r_id (routines ?d1))" by simp
      show ?thesis
        using touched_self[OF ex1 rs] rs ids1 by (simp add: touched_ids)
    qed
  next
    case (DeleteRoutineExerciseReq t' j x)
    with touch have "j = i" "t' = t" by auto
    with DeleteRoutineExerciseReq have rs: "routines (snd (handle r d)) =
        map (\<lambda>r. if r_id r = i then r\<lparr>r_updatedAt := t\<rparr> else r) (routines d)"
      by (simp add: outcome_simps delete_routine_exercise_routines)
    show ?thesis using touched_self[OF ex rs] rs by (simp add: touched_ids)
  next
    case (PostRoutineExercise t' nano j e)
    with touch have e: "truthy e" and "j = i" "t' = t" by (auto split: if_splits)
    with PostRoutineExercise ok have rs: "routines (snd (handle r d)) =
        map (\<lambda>r. if r_id r = i then r\<lparr>r_updatedAt := t\<rparr> else r) (routines d)"
      by (simp add: outcome_simps(1) post_routine_exercise_routines)
    show ?thesis using touched_self[OF ex rs] rs by (simp add: touched_ids)
  next
    case (PostRoutineSet t' nano j x reps peso)
    with touch have "j = i" "t' = t" by auto
    with PostRoutineSet ok have rs: "routines (snd (handle r d)) =
        map (\<lambda>r. if r_id r = i then r\<lparr>r_updatedAt := t\<rparr> else r) (routines d)"
      by (simp add: outcome_simps(1) post_routine_set_routines)
    show ?thesis using touched_self[OF ex rs] rs by (simp add: touched_ids)
  next
    case (DeleteRoutineSetReq t' j x s)
    with touch have "j = i" "t' = t" by auto
    with DeleteRoutineSetReq have rs: "routines (snd (handle r d)) =
        map (\<lambda>r. if r_id r = i then r\<lparr>r_updatedAt := t\<rparr> else r) (routines d)"
      by (simp add: outcome_simps delete_routine_set_routines)
    show ?thesis using touched_self[OF ex rs] rs by (simp add: touched_ids)
  qed (use touch in simp_all)
  then show "updated_at (snd (handle r d)) i = Some t"
    and "i \<in> set (map r_id (routines (snd (handle r d))))"
    using ex by simp_all
qed

lemma mutations_trace:
  "i \<in> set (map r_id (routines d)) \<Longrightarrow> mutations_of i rs ts d \<Longrightarrow>
     updated_trace i rs d = map Some ts"
proof (induction rs arbitrary: ts d)
  case Nil
  then show ?case by simp
next
  case (Cons r rs)
  from Cons.prems(2) obtain t ts' where ts: "ts = t # ts'"
    by (cases ts) auto
  with Cons.prems(2) have touch: "touch_of r = Some (i, t)" and ok: "fst (handle r d)"
    and rest: "mutations_of i rs ts' (snd (handle r d))"
    by simp_all
  from mutation_step[OF touch ok Cons.prems(1)]
  have "updated_at (snd (handle r d)) i = Some t"
    and "i \<in> set (map r_id (routines (snd (handle r d))))"
    by simp_all
  with Cons.IH[OF _ rest] ts show ?case by simp
qed

lemma run_last_trace:
  "rs \<noteq> [] \<Longrightarrow> updated_at (run rs d) i = last (updated_trace i rs d)"
proof (induction rs arbitrary: d)
  case Nil
  then show ?case by simp
next
  case (Cons r rs)
  then show ?case by (cases rs) simp_all
qed

lemma mutations_length: "mutations_of i rs ts d \<Longrightarrow> length ts = length rs"
proof (induction rs arbitrary: ts d)
  case Nil
  then show ?case by simp
next
  case (Cons r rs)
  then show ?case by (cases ts) auto
qed

lemma sorted_le_last: "sorted xs \<Longrightarrow> x \<in> set xs \<Longrightarrow> x \<le> last xs"
proof (induction xs)
  case Nil
  then show ?case by simp
next
  case (Cons a xs)
  show ?case
  proof (cases "xs = []")
    case True
    with Cons.prems show ?thesis by simp
  next
    case False
    then have "last xs \<in> set xs" by simp
    with Cons False show ?thesis by auto
  qed
qed

lemma sorted_Some: "sorted (map Some xs) = sorted xs"
  by (induction xs) auto

lemma strict_sorted_Some: "sorted_wrt (<) (map Some xs) = sorted_wrt (<) xs"
  by (induction xs) auto

text \<open>
  C3 (amended). For an existing routine and any sequence of its mutations that go through
  (rename with a non-blank name, set edit, set add or remove, exercise add or remove),
  the routine's \<open>updatedAt\<close> after each mutation is the clock reading of that mutation.
  So it is non-decreasing along the sequence when the clock readings are (starting from
  the stored value), strictly increasing when they are, and then at least the reading of
  every mutation made through the routine.
\<close>

theorem updatedAt_follows_clock:
  "i \<in> set (map r_id (routines d)) \<and> mutations_of i rs ts d \<longrightarrow>
     updated_trace i rs d = map Some ts \<and>
     (\<forall>u. updated_at d i = Some u \<and> sorted (u # ts) \<longrightarrow>
          sorted (Some u # updated_trace i rs d)) \<and>
     (\<forall>u. updated_at d i = Some u \<and> sorted_wrt (<) (u # ts) \<longrightarrow>
          sorted_wrt (<) (Some u # updated_trace i rs d)) \<and>
     (sorted ts \<longrightarrow> (\<forall>t\<in>set ts. Some t \<le> updated_at (run rs d) i))"
proof (intro impI)
  assume a: "i \<in> set (map r_id (routines d)) \<and> mutations_of i rs ts d"
  then have tr: "updated_trace i rs d = map Some ts"
    using mutations_trace by blast
  have mono: "sorted (Some u # updated_trace i rs d)" if "sorted (u # ts)" for u
    using that sorted_Some[of "u # ts"] unfolding tr by simp
  have strict: "sorted_wrt (<) (Some u # updated_trace i rs d)" if "sorted_wrt (<) (u # ts)" for u
    using that strict_sorted_Some[of "u # ts"] unfolding tr by simp
  have high: "\<forall>t\<in>set ts. Some t \<le> updated_at (run rs d) i" if s: "sorted ts"
  proof (cases "rs = []")
    case True
    with a show ?thesis by simp
  next
    case False
    with a have ne: "ts \<noteq> []" using mutations_length by fastforce
    from False have "updated_at (run rs d) i = last (map Some ts)"
      using run_last_trace tr by simp
    with ne have fin: "updated_at (run rs d) i = Some (last ts)"
      by (simp add: last_map)
    have "\<forall>t\<in>set ts. t \<le> last ts"
      using s sorted_le_last by blast
    then show ?thesis unfolding fin by simp
  qed
  from tr mono strict high
  show "updated_trace i rs d = map Some ts \<and>
     (\<forall>u. updated_at d i = Some u \<and> sorted (u # ts) \<longrightarrow>
          sorted (Some u # updated_trace i rs d)) \<and>
     (\<forall>u. updated_at d i = Some u \<and> sorted_wrt (<) (u # ts) \<longrightarrow>
          sorted_wrt (<) (Some u # updated_trace i rs d)) \<and>
     (sorted ts \<longrightarrow> (\<forall>t\<in>set ts. Some t \<le> updated_at (run rs d) i))"
    by blast
qed

lemmas handlers_eval =
  outcome_def post_routine_set_def put_routine_def update_sets_tx_def set_updates_def
  delete_routine_exercise_def remove_exercise_tx_def delete_routine_set_def
  post_routine_exercise_def next_order_def post_routine_def post_exercise_def
  updated_at_def Let_def empty_db_def

theorem updatedAt_follows_clock_witness:
  "updated_at routines_db ''R2'' = Some 10 \<and>
   mutations_of ''R2'' mutation_requests [20, 30, 40] routines_db \<and>
   updated_trace ''R2'' mutation_requests routines_db = [Some 20, Some 30, Some 40] \<and>
   sorted_wrt (<) (Some 10 # updated_trace ''R2'' mutation_requests routines_db) \<and>
   Some 20 \<le> updated_at (run mutation_requests routines_db) ''R2'' \<and>
   Some 40 \<le> updated_at (run mutation_requests routines_db) ''R2''"
proof -
  have u: "updated_at routines_db ''R2'' = Some 10"
    by (simp add: updated_at_def routines_db_def empty_db_def)
  have h: "''R2'' \<in> set (map r_id (routines routines_db)) \<and>
      mutations_of ''R2'' mutation_requests [20, 30, 40] routines_db"
    by (simp add: mutation_requests_def handlers_eval routines_db_def edit_body_def)
  have s: "sorted_wrt (<) (10 # [20, 30, 40::int])" "sorted [20, 30, 40::int]"
    by simp_all
  from updatedAt_follows_clock[where i="''R2''" and d=routines_db and rs=mutation_requests
      and ts="[20, 30, 40]"] h
  have c: "updated_trace ''R2'' mutation_requests routines_db = map Some [20, 30, 40]"
    and "\<forall>u. updated_at routines_db ''R2'' = Some u \<and> sorted_wrt (<) (u # [20, 30, 40]) \<longrightarrow>
          sorted_wrt (<) (Some u # updated_trace ''R2'' mutation_requests routines_db)"
    and "sorted [20, 30, 40::int] \<longrightarrow>
      (\<forall>t\<in>set [20, 30, 40]. Some t \<le> updated_at (run mutation_requests routines_db) ''R2'')"
    by blast+
  with u s have "sorted_wrt (<) (Some 10 # updated_trace ''R2'' mutation_requests routines_db)"
    and "Some 20 \<le> updated_at (run mutation_requests routines_db) ''R2''"
    and "Some 40 \<le> updated_at (run mutation_requests routines_db) ''R2''"
    by simp_all
  with u h c show ?thesis by simp
qed

text \<open>
  C3 as stated fails in two ways. A set is added to routine R2 at the clock reading 10,
  the value its \<open>updatedAt\<close> already has (a second request in the same millisecond): the
  request goes through and \<open>updatedAt\<close> is still 10, not greater. And a set is added at
  clock reading 20 to link X of routine R2 through the path of routine R1: the set is
  stored beneath R2, whose \<open>updatedAt\<close> stays 10, below the time of that change.
\<close>

theorem updatedAt_counterexample:
  "updated_at routines_db ''R2'' = Some 10 \<and>
   fst (handle (PostRoutineSet 10 ''n1'' ''R2'' ''X'' None None) routines_db) \<and>
   updated_at (snd (handle (PostRoutineSet 10 ''n1'' ''R2'' ''X'' None None) routines_db)) ''R2''
     = Some 10 \<and>
   map re_routine_id (filter (\<lambda>l. re_id l = ''X'') (routine_exercises routines_db)) = [''R2''] \<and>
   fst (handle (PostRoutineSet 20 ''n2'' ''R1'' ''X'' None None) routines_db) \<and>
   map rs_id (filter (\<lambda>s. rs_routine_exercise_id s = ''X'')
     (routine_sets (snd (handle (PostRoutineSet 20 ''n2'' ''R1'' ''X'' None None) routines_db))))
     = [''s2'', ''s3'', ''set_n2''] \<and>
   updated_at (snd (handle (PostRoutineSet 20 ''n2'' ''R1'' ''X'' None None) routines_db)) ''R2''
     = Some 10"
  by (simp add: handlers_eval routines_db_def)

section \<open>Properties of the recorded sessions\<close>

lemma workout_tx_effect:
  "\<forall>s\<in>set ss. is_workout_insert s \<Longrightarrow> transaction ss d = Some d' \<Longrightarrow>
     d' = d\<lparr>workouts := workouts d @ workouts_in ss,
            workout_items := workout_items d @ items_in ss,
            workout_sets := workout_sets d @ sets_in ss\<rparr>"
proof (induction ss arbitrary: d)
  case Nil
  then show ?case by simp
next
  case (Cons s ss)
  from Cons.prems obtain d1 where d1: "exec s d = Some d1" and rest: "transaction ss d1 = Some d'"
    by (auto split: option.splits)
  from Cons.prems have ins: "is_workout_insert s" and all: "\<forall>s\<in>set ss. is_workout_insert s"
    by simp_all
  from Cons.IH[OF all rest]
  have d': "d' = d1\<lparr>workouts := workouts d1 @ workouts_in ss,
            workout_items := workout_items d1 @ items_in ss,
            workout_sets := workout_sets d1 @ sets_in ss\<rparr>" .
  from ins d1 show ?case
    unfolding d' by (cases s) (auto split: if_splits)
qed

lemma workout_tx_success:
  "\<forall>s\<in>set ss. is_workout_insert s \<Longrightarrow>
   distinct (map w_id (workouts d @ workouts_in ss)) \<Longrightarrow>
   distinct (map wi_id (workout_items d @ items_in ss)) \<Longrightarrow>
   distinct (map ws_id (workout_sets d @ sets_in ss)) \<Longrightarrow>
     \<exists>d'. transaction ss d = Some d'"
proof (induction ss arbitrary: d)
  case Nil
  then show ?case by simp
next
  case (Cons s ss)
  from Cons.prems(1) have ins: "is_workout_insert s" and all: "\<forall>s\<in>set ss. is_workout_insert s"
    by simp_all
  from ins show ?case
  proof (cases s)
    case (InsertWorkout w)
    with Cons.prems have new: "w_id w \<notin> set (map w_id (workouts d))" by auto
    let ?d1 = "d\<lparr>workouts := workouts d @ [w]\<rparr>"
    have "\<exists>d'. transaction ss ?d1 = Some d'"
      using Cons.prems InsertWorkout all by (intro Cons.IH) simp_all
    with new InsertWorkout show ?thesis by simp
  next
    case (InsertWorkoutItem w)
    with Cons.prems have new: "wi_id w \<notin> set (map wi_id (workout_items d))" by auto
    let ?d1 = "d\<lparr>workout_items := workout_items d @ [w]\<rparr>"
    have "\<exists>d'. transaction ss ?d1 = Some d'"
      using Cons.prems InsertWorkoutItem all by (intro Cons.IH) simp_all
    with new InsertWorkoutItem show ?thesis by simp
  next
    case (InsertWorkoutSet w)
    with Cons.prems have new: "ws_id w \<notin> set (map ws_id (workout_sets d))" by auto
    let ?d1 = "d\<lparr>workout_sets := workout_sets d @ [w]\<rparr>"
    have "\<exists>d'. transaction ss ?d1 = Some d'"
      using Cons.prems InsertWorkoutSet all by (intro Cons.IH) simp_all
    with new InsertWorkoutSet show ?thesis by simp
  qed simp_all
qed

lemma workouts_in_append: "workouts_in (a @ b) = workouts_in a @ workouts_in b"
  by (induction a rule: workouts_in.induct) simp_all

lemma items_in_append: "items_in (a @ b) = items_in a @ items_in b"
  by (induction a rule: items_in.induct) simp_all

lemma sets_in_append: "sets_in (a @ b) = sets_in a @ sets_in b"
  by (induction a rule: sets_in.induct) simp_all

lemma set_stmts_inserts: "\<forall>s\<in>set (workout_set_stmts gen k wi sts). is_workout_insert s"
  by (induction sts arbitrary: k) simp_all

lemma set_stmts_rows:
  "workouts_in (workout_set_stmts gen k wi sts) = []"
  "items_in (workout_set_stmts gen k wi sts) = []"
  "map row_columns (sets_in (workout_set_stmts gen k wi sts)) = map set_columns sts"
  "map ws_workout_item_id (sets_in (workout_set_stmts gen k wi sts)) = replicate (length sts) wi"
  by (induction sts arbitrary: k) (simp_all add: row_columns_def set_columns_def)

lemma item_stmts_inserts: "\<forall>s\<in>set (workout_item_stmts gen k wid idx its). is_workout_insert s"
  by (induction its arbitrary: k idx) (simp_all add: set_stmts_inserts ball_Un)

lemma item_stmts_workouts: "workouts_in (workout_item_stmts gen k wid idx its) = []"
  by (induction its arbitrary: k idx) (simp_all add: workouts_in_append set_stmts_rows)

lemma item_stmts_items:
  "map wi_order_index (items_in (workout_item_stmts gen k wid idx its)) =
     map int [idx..<idx + length its]"
  "map item_columns (items_in (workout_item_stmts gen k wid idx its)) = map payload_columns its"
  "map wi_workout_id (items_in (workout_item_stmts gen k wid idx its)) = replicate (length its) wid"
proof (induction its arbitrary: k idx)
  case Nil
  {
    case 1 show ?case by simp
  next
    case 2 show ?case by simp
  next
    case 3 show ?case by simp
  }
next
  case (Cons it its)
  {
    case 1
    have "[idx..<Suc (idx + length its)] = idx # [Suc idx..<Suc (idx + length its)]"
      by (rule upt_conv_Cons) simp
    then show ?case
      using Cons.IH(1)[of "Suc k + length (or_nil (wip_sets it))" "Suc idx"]
      by (simp add: items_in_append set_stmts_rows del: upt_Suc)
  next
    case 2
    show ?case
      using Cons.IH(2)[of "Suc k + length (or_nil (wip_sets it))" "Suc idx"]
      by (simp add: items_in_append set_stmts_rows item_columns_def payload_columns_def)
  next
    case 3
    show ?case
      using Cons.IH(3)[of "Suc k + length (or_nil (wip_sets it))" "Suc idx"]
      by (simp add: items_in_append set_stmts_rows)
  }
qed

lemma item_stmts_sets:
  "map row_columns (sets_in (workout_item_stmts gen k wid idx its)) =
     concat (map (\<lambda>it. map set_columns (or_nil (wip_sets it))) its)"
  "map ws_workout_item_id (sets_in (workout_item_stmts gen k wid idx its)) =
     owners (items_in (workout_item_stmts gen k wid idx its)) its"
proof (induction its arbitrary: k idx)
  case Nil
  {
    case 1 show ?case by simp
  next
    case 2 show ?case by (simp add: owners_def)
  }
next
  case (Cons it its)
  {
    case 1
    show ?case
      using Cons.IH(1)[of "Suc k + length (or_nil (wip_sets it))" "Suc idx"]
      by (simp add: sets_in_append set_stmts_rows)
  next
    case 2
    show ?case
      using Cons.IH(2)[of "Suc k + length (or_nil (wip_sets it))" "Suc idx"]
      by (simp add: sets_in_append items_in_append set_stmts_rows owners_def)
  }
qed

lemma post_exercise_frame: "session_tables (snd (post_exercise nano p d)) = session_tables d"
  by (simp add: post_exercise_def session_tables_def Let_def)

lemma post_routine_frame: "session_tables (snd (post_routine t nano n d)) = session_tables d"
  by (simp add: post_routine_def session_tables_def Let_def)

lemma put_routine_frame: "session_tables (snd (put_routine t1 t2 i body d)) = session_tables d"
  by (simp add: put_routine_def update_sets_tx_run session_tables_def split: option.splits)

lemma delete_routine_exercise_frame:
  "session_tables (snd (delete_routine_exercise t i x d)) = session_tables d"
  by (simp add: delete_routine_exercise_def remove_exercise_tx_def session_tables_def)

lemma post_routine_exercise_frame:
  "session_tables (snd (post_routine_exercise t nano i e d)) = session_tables d"
  by (simp add: post_routine_exercise_def session_tables_def Let_def)

lemma post_routine_set_frame:
  "session_tables (snd (post_routine_set t nano i x reps peso d)) = session_tables d"
  by (simp add: post_routine_set_def session_tables_def Let_def)

lemma delete_routine_set_frame:
  "session_tables (snd (delete_routine_set t i x s d)) = session_tables d"
  by (simp add: delete_routine_set_def session_tables_def)

lemma handle_frame:
  "\<not> is_post_workout r \<Longrightarrow> session_tables (snd (handle r d)) = session_tables d"
  by (cases r)
     (simp_all add: outcome_simps post_exercise_frame post_routine_frame put_routine_frame
        delete_routine_exercise_frame post_routine_exercise_frame post_routine_set_frame
        delete_routine_set_frame)

lemma record_tx_inserts: "\<forall>x\<in>set (record_workout_tx gen s). is_workout_insert x"
  by (simp add: record_workout_tx_def item_stmts_inserts)

lemma post_workout_effect:
  "(post_workout gen s d = (Inl StorageError, d)) \<or>
   (post_workout gen s d =
      (Inr (''wo_'' @ gen 0),
       d\<lparr>workouts := workouts d @ workouts_in (record_workout_tx gen s),
         workout_items := workout_items d @ items_in (record_workout_tx gen s),
         workout_sets := workout_sets d @ sets_in (record_workout_tx gen s)\<rparr>))"
proof (cases "transaction (record_workout_tx gen s) d")
  case None
  then show ?thesis by (simp add: post_workout_def)
next
  case (Some d')
  from workout_tx_effect[OF record_tx_inserts Some] Some
  show ?thesis by (simp add: post_workout_def)
qed

lemma handle_prefix:
  "\<exists>ws rows sets. session_tables (snd (handle r d)) =
      (workouts d @ ws, workout_items d @ rows, workout_sets d @ sets)"
proof (cases "is_post_workout r")
  case True
  then obtain gen s where r: "r = PostWorkout gen s" by (cases r) auto
  from post_workout_effect[of gen s d] show ?thesis
  proof
    assume "post_workout gen s d = (Inl StorageError, d)"
    then have "session_tables (snd (handle r d)) = (workouts d @ [], workout_items d @ [], workout_sets d @ [])"
      using r by (simp add: outcome_simps session_tables_def)
    then show ?thesis by blast
  next
    assume "post_workout gen s d =
      (Inr (''wo_'' @ gen 0),
       d\<lparr>workouts := workouts d @ workouts_in (record_workout_tx gen s),
         workout_items := workout_items d @ items_in (record_workout_tx gen s),
         workout_sets := workout_sets d @ sets_in (record_workout_tx gen s)\<rparr>)"
    then have "session_tables (snd (handle r d)) =
        (workouts d @ workouts_in (record_workout_tx gen s),
         workout_items d @ items_in (record_workout_tx gen s),
         workout_sets d @ sets_in (record_workout_tx gen s))"
      using r by (simp add: outcome_simps session_tables_def)
    then show ?thesis by blast
  qed
next
  case False
  from handle_frame[OF this, of d]
  have "session_tables (snd (handle r d)) = (workouts d @ [], workout_items d @ [], workout_sets d @ [])"
    by (simp add: session_tables_def)
  then show ?thesis by blast
qed

lemma run_prefix:
  "\<exists>ws rows sets. session_tables (run rs d) =
      (workouts d @ ws, workout_items d @ rows, workout_sets d @ sets)"
proof (induction rs arbitrary: d)
  case Nil
  have "session_tables (run [] d) = (workouts d @ [], workout_items d @ [], workout_sets d @ [])"
    by (simp add: session_tables_def)
  then show ?case by blast
next
  case (Cons r rs)
  let ?d1 = "snd (handle r d)"
  from handle_prefix[of r d] obtain ws1 rows1 sets1
    where one: "session_tables ?d1 = (workouts d @ ws1, workout_items d @ rows1, workout_sets d @ sets1)"
    by blast
  from Cons.IH[of ?d1] obtain ws2 rows2 sets2
    where two: "session_tables (run rs ?d1) =
      (workouts ?d1 @ ws2, workout_items ?d1 @ rows2, workout_sets ?d1 @ sets2)"
    by blast
  from one two have "session_tables (run (r # rs) d) =
      (workouts d @ (ws1 @ ws2), workout_items d @ (rows1 @ rows2), workout_sets d @ (sets1 @ sets2))"
    by (simp add: session_tables_def)
  then show ?case by blast
qed

lemma run_frame:
  "\<forall>r\<in>set rs. \<not> is_post_workout r \<Longrightarrow> session_tables (run rs d) = session_tables d"
  by (induction rs arbitrary: d) (simp_all add: handle_frame)

lemma marks_cong: "session_tables d' = session_tables d \<Longrightarrow> get_marks d' = get_marks d"
  by (simp add: session_tables_def get_marks_def winners_def ranked_def joined_def)

lemma post_workout_rows:
  assumes "post_workout gen s d = (Inr v, d')"
  shows "\<exists>rows sets.
      workouts d' = workouts d @
        [\<lparr>w_id = ''wo_'' @ gen 0, w_routine_id = wp_routineId s, w_startedAt = wp_startedAt s,
          w_finishedAt = wp_finishedAt s, w_durationSec = wp_durationSec s\<rparr>] \<and>
      workout_items d' = workout_items d @ rows \<and>
      workout_sets d' = workout_sets d @ sets \<and>
      map wi_order_index rows = map int [0..<length (or_nil (wp_items s))] \<and>
      map item_columns rows = map payload_columns (or_nil (wp_items s)) \<and>
      map wi_workout_id rows = replicate (length (or_nil (wp_items s))) (''wo_'' @ gen 0) \<and>
      map row_columns sets =
        concat (map (\<lambda>it. map set_columns (or_nil (wip_sets it))) (or_nil (wp_items s))) \<and>
      map ws_workout_item_id sets = owners rows (or_nil (wp_items s)) \<and>
      exercises d' = exercises d \<and> routines d' = routines d \<and>
      routine_exercises d' = routine_exercises d \<and> routine_sets d' = routine_sets d"
proof -
  let ?its = "or_nil (wp_items s)"
  let ?tx = "workout_item_stmts gen 1 (''wo_'' @ gen 0) 0 ?its"
  from assms post_workout_effect[of gen s d]
  have d': "d' = d\<lparr>workouts := workouts d @ workouts_in (record_workout_tx gen s),
         workout_items := workout_items d @ items_in (record_workout_tx gen s),
         workout_sets := workout_sets d @ sets_in (record_workout_tx gen s)\<rparr>"
    by auto
  have w: "workouts_in (record_workout_tx gen s) =
        [\<lparr>w_id = ''wo_'' @ gen 0, w_routine_id = wp_routineId s, w_startedAt = wp_startedAt s,
          w_finishedAt = wp_finishedAt s, w_durationSec = wp_durationSec s\<rparr>]"
    by (simp add: record_workout_tx_def item_stmts_workouts)
  have i: "items_in (record_workout_tx gen s) = items_in ?tx"
    and x: "sets_in (record_workout_tx gen s) = sets_in ?tx"
    by (simp_all add: record_workout_tx_def)
  have "workouts d' = workouts d @
        [\<lparr>w_id = ''wo_'' @ gen 0, w_routine_id = wp_routineId s, w_startedAt = wp_startedAt s,
          w_finishedAt = wp_finishedAt s, w_durationSec = wp_durationSec s\<rparr>] \<and>
      workout_items d' = workout_items d @ items_in ?tx \<and>
      workout_sets d' = workout_sets d @ sets_in ?tx \<and>
      map wi_order_index (items_in ?tx) = map int [0..<length ?its] \<and>
      map item_columns (items_in ?tx) = map payload_columns ?its \<and>
      map wi_workout_id (items_in ?tx) = replicate (length ?its) (''wo_'' @ gen 0) \<and>
      map row_columns (sets_in ?tx) =
        concat (map (\<lambda>it. map set_columns (or_nil (wip_sets it))) ?its) \<and>
      map ws_workout_item_id (sets_in ?tx) = owners (items_in ?tx) ?its \<and>
      exercises d' = exercises d \<and> routines d' = routines d \<and>
      routine_exercises d' = routine_exercises d \<and> routine_sets d' = routine_sets d"
    using item_stmts_items[of gen 1 "''wo_'' @ gen 0" 0 ?its]
      item_stmts_sets[of gen 1 "''wo_'' @ gen 0" 0 ?its]
    unfolding d' w i x by simp
  then show ?thesis by blast
qed

lemma post_workout_success:
  assumes "distinct (map w_id (workouts d @ workouts_in (record_workout_tx gen s)))"
    and "distinct (map wi_id (workout_items d @ items_in (record_workout_tx gen s)))"
    and "distinct (map ws_id (workout_sets d @ sets_in (record_workout_tx gen s)))"
  shows "fst (post_workout gen s d) = Inr (''wo_'' @ gen 0)"
proof -
  from workout_tx_success[OF record_tx_inserts assms]
  obtain d' where "transaction (record_workout_tx gen s) d = Some d'" by blast
  then show ?thesis by (simp add: post_workout_def)
qed

text \<open>
  C5. Recording a workout is atomic: either it fails with a storage error and the store
  is as it was, or it appends the session row, one item row per payload item in the
  given order with positions 0, 1, 2, ... and the payload's denormalized fields, and one
  set row per payload set, in order, under its item's id, and leaves every other table as
  it was; it succeeds whenever the generated ids are new and distinct. No other writing
  request changes the three workout tables, so after any sequence of such requests the
  tables and the personal records are what they were; and later recordings only append.
\<close>

theorem workout_sessions_write_once:
  "(\<exists>res d'. post_workout gen s d = (res, d') \<and>
      ((res = Inl StorageError \<and> d' = d) \<or>
       (res = Inr (''wo_'' @ gen 0) \<and>
        (\<exists>rows sets.
           workouts d' = workouts d @
             [\<lparr>w_id = ''wo_'' @ gen 0, w_routine_id = wp_routineId s,
               w_startedAt = wp_startedAt s, w_finishedAt = wp_finishedAt s,
               w_durationSec = wp_durationSec s\<rparr>] \<and>
           workout_items d' = workout_items d @ rows \<and>
           workout_sets d' = workout_sets d @ sets \<and>
           map wi_order_index rows = map int [0..<length (or_nil (wp_items s))] \<and>
           map item_columns rows = map payload_columns (or_nil (wp_items s)) \<and>
           map wi_workout_id rows = replicate (length (or_nil (wp_items s))) (''wo_'' @ gen 0) \<and>
           map row_columns sets =
             concat (map (\<lambda>it. map set_columns (or_nil (wip_sets it))) (or_nil (wp_items s))) \<and>
           map ws_workout_item_id sets = owners rows (or_nil (wp_items s)) \<and>
           exercises d' = exercises d \<and> routines d' = routines d \<and>
           routine_exercises d' = routine_exercises d \<and> routine_sets d' = routine_sets d)))) \<and>
   (distinct (map w_id (workouts d @ workouts_in (record_workout_tx gen s))) \<and>
    distinct (map wi_id (workout_items d @ items_in (record_workout_tx gen s))) \<and>
    distinct (map ws_id (workout_sets d @ sets_in (record_workout_tx gen s))) \<longrightarrow>
      fst (post_workout gen s d) = Inr (''wo_'' @ gen 0)) \<and>
   (\<forall>r. \<not> is_post_workout r \<longrightarrow> session_tables (snd (handle r d)) = session_tables d) \<and>
   (\<forall>rs. (\<forall>r\<in>set rs. \<not> is_post_workout r) \<longrightarrow>
      session_tables (run rs d) = session_tables d \<and> get_marks (run rs d) = get_marks d) \<and>
   (\<forall>rs. \<exists>ws rows sets. session_tables (run rs d) =
      (workouts d @ ws, workout_items d @ rows, workout_sets d @ sets))"
proof (intro conjI)
  show "\<exists>res d'. post_workout gen s d = (res, d') \<and>
      ((res = Inl StorageError \<and> d' = d) \<or>
       (res = Inr (''wo_'' @ gen 0) \<and>
        (\<exists>rows sets.
           workouts d' = workouts d @
             [\<lparr>w_id = ''wo_'' @ gen 0, w_routine_id = wp_routineId s,
               w_startedAt = wp_startedAt s, w_finishedAt = wp_finishedAt s,
               w_durationSec = wp_durationSec s\<rparr>] \<and>
           workout_items d' = workout_items d @ rows \<and>
           workout_sets d' = workout_sets d @ sets \<and>
           map wi_order_index rows = map int [0..<length (or_nil (wp_items s))] \<and>
           map item_columns rows = map payload_columns (or_nil (wp_items s)) \<and>
           map wi_workout_id rows = replicate (length (or_nil (wp_items s))) (''wo_'' @ gen 0) \<and>
           map row_columns sets =
             concat (map (\<lambda>it. map set_columns (or_nil (wip_sets it))) (or_nil (wp_items s))) \<and>
           map ws_workout_item_id sets = owners rows (or_nil (wp_items s)) \<and>
           exercises d' = exercises d \<and> routines d' = routines d \<and>
           routine_exercises d' = routine_exercises d \<and> routine_sets d' = routine_sets d)))"
  proof (cases "post_workout gen s d = (Inl StorageError, d)")
    case True
    then show ?thesis by blast
  next
    case False
    with post_workout_effect[of gen s d] obtain d'
      where run: "post_workout gen s d = (Inr (''wo_'' @ gen 0), d')" by blast
    from post_workout_rows[OF run] run show ?thesis by blast
  qed
next
  show "distinct (map w_id (workouts d @ workouts_in (record_workout_tx gen s))) \<and>
    distinct (map wi_id (workout_items d @ items_in (record_workout_tx gen s))) \<and>
    distinct (map ws_id (workout_sets d @ sets_in (record_workout_tx gen s))) \<longrightarrow>
      fst (post_workout gen s d) = Inr (''wo_'' @ gen 0)"
    using post_workout_success by blast
next
  show "\<forall>r. \<not> is_post_workout r \<longrightarrow> session_tables (snd (handle r d)) = session_tables d"
    using handle_frame by blast
next
  show "\<forall>rs. (\<forall>r\<in>set rs. \<not> is_post_workout r) \<longrightarrow>
      session_tables (run rs d) = session_tables d \<and> get_marks (run rs d) = get_marks d"
    using run_frame marks_cong by blast
next
  show "\<forall>rs. \<exists>ws rows sets. session_tables (run rs d) =
      (workouts d @ ws, workout_items d @ rows, workout_sets d @ sets)"
    using run_prefix by blast
qed

lemmas session_eval =
  post_workout_def record_workout_tx_def session_ids_def session_payload_def
  routines_db_def empty_db_def

theorem workout_sessions_write_once_witness:
  "fst (post_workout session_ids session_payload routines_db) = Inr ''wo_a'' \<and>
   map w_routine_id (workouts recorded_db) = [Some ''R1''] \<and>
   map wi_id (workout_items recorded_db) = [''wi_b'', ''wi_e''] \<and>
   map wi_order_index (workout_items recorded_db) = [0, 1] \<and>
   map wi_name (workout_items recorded_db) = [Some ''Press'', Some ''Curl''] \<and>
   map ws_workout_item_id (workout_sets recorded_db) = [''wi_b'', ''wi_b'', ''wi_e'', ''wi_e''] \<and>
   map row_columns (workout_sets recorded_db) =
     [(Some 10, Some 40, 1), (Some 8, Some 45, 0), (Some 12, Some 15, 1), (None, None, 0)] \<and>
   session_tables (run later_edits recorded_db) = session_tables recorded_db \<and>
   get_marks (run later_edits recorded_db) = get_marks recorded_db"
proof -
  have fresh:
    "distinct (map w_id (workouts routines_db @
        workouts_in (record_workout_tx session_ids session_payload))) \<and>
     distinct (map wi_id (workout_items routines_db @
        items_in (record_workout_tx session_ids session_payload))) \<and>
     distinct (map ws_id (workout_sets routines_db @
        sets_in (record_workout_tx session_ids session_payload)))"
    by (simp add: session_eval)
  have edits: "\<forall>r\<in>set later_edits. \<not> is_post_workout r"
    by (simp add: later_edits_def)
  from workout_sessions_write_once[where gen=session_ids and s=session_payload and d=routines_db]
    fresh
  have ok: "fst (post_workout session_ids session_payload routines_db) = Inr (''wo_'' @ session_ids 0)"
    by blast
  from workout_sessions_write_once[where d=recorded_db] edits
  have kept: "session_tables (run later_edits recorded_db) = session_tables recorded_db \<and>
      get_marks (run later_edits recorded_db) = get_marks recorded_db"
    by blast
  have rows: "map w_routine_id (workouts recorded_db) = [Some ''R1''] \<and>
   map wi_id (workout_items recorded_db) = [''wi_b'', ''wi_e''] \<and>
   map wi_order_index (workout_items recorded_db) = [0, 1] \<and>
   map wi_name (workout_items recorded_db) = [Some ''Press'', Some ''Curl''] \<and>
   map ws_workout_item_id (workout_sets recorded_db) = [''wi_b'', ''wi_b'', ''wi_e'', ''wi_e''] \<and>
   map row_columns (workout_sets recorded_db) =
     [(Some 10, Some 40, 1), (Some 8, Some 45, 0), (Some 12, Some 15, 1), (None, None, 0)]"
    by (simp add: recorded_db_def session_eval row_columns_def)
  from ok kept rows show ?thesis by (simp add: session_ids_def)
qed

end
